theory Spec2Isabelle
  imports Main "HOL-Library.Word"
begin

unbundle bit_operations_syntax

section \<open>Machine types and kernel macros\<close>

text \<open>
  The 8xx is a 32-bit PowerPC: \<open>unsigned long\<close> and \<open>phys_addr_t\<close> are 32-bit
  words, addition and subtraction wrap around.  \<open>pgprot_t\<close> wraps an \<open>unsigned long\<close>
  (\<open>pgprot_val\<close> reads it), a page table entry is a word as well.
\<close>

type_synonym u32 = "32 word"

type_synonym pgprot = "32 word"

type_synonym pte = "32 word"

definition SZ_4K :: u32 where "SZ_4K = 0x1000"

definition SZ_512K :: u32 where "SZ_512K = 0x80000"

definition SZ_8M :: u32 where "SZ_8M = 0x800000"

definition SZ_32M :: u32 where "SZ_32M = 0x2000000"

definition EINVAL :: int where "EINVAL = 22"

definition ENOMEM :: int where "ENOMEM = 12"

text \<open>
  The alignment macros of \<open>linux/align.h\<close>, for a power of two \<open>a\<close>:
  \<open>ALIGN(x, a) = (x + (a - 1)) & ~(a - 1)\<close>,
  \<open>ALIGN_DOWN(x, a) = ALIGN(x - (a - 1), a)\<close>,
  \<open>IS_ALIGNED(x, a) = ((x & (a - 1)) == 0)\<close>.
\<close>

definition ALIGN :: "u32 \<Rightarrow> u32 \<Rightarrow> u32" where
  "ALIGN x a = (x + (a - 1)) AND NOT (a - 1)"

definition ALIGN_DOWN :: "u32 \<Rightarrow> u32 \<Rightarrow> u32" where
  "ALIGN_DOWN x a = ALIGN (x - (a - 1)) a"

definition IS_ALIGNED :: "u32 \<Rightarrow> u32 \<Rightarrow> bool" where
  "IS_ALIGNED x a = (x AND (a - 1) = 0)"

section \<open>Platform constants and helpers declared outside 8xx.c\<close>

text \<open>
  Modelled from the spec: the size class handed to the page installer.  The spec names
  two legal classes, Small (512 KB, \<open>MMU_PAGE_512K\<close>) and Large (8 MB,
  \<open>MMU_PAGE_8M\<close>); every other value of the \<open>int psize\<close> argument is
  \<open>MMU_PAGE_OTHER\<close>.
\<close>

datatype psize = MMU_PAGE_512K | MMU_PAGE_8M | MMU_PAGE_OTHER nat

text \<open>Modelled from the spec: Small is 512 KB (shift 19), Large is 8 MB (shift 23).\<close>

fun mmu_psize_to_shift :: "psize \<Rightarrow> nat" where
  "mmu_psize_to_shift MMU_PAGE_512K = 19"
| "mmu_psize_to_shift MMU_PAGE_8M = 23"
| "mmu_psize_to_shift (MMU_PAGE_OTHER n) = 0"

definition PAGE_SHIFT_8M :: nat where "PAGE_SHIFT_8M = 23"

text \<open>
  The constants, layout symbols, boot flags and pure page-table helpers that 8xx.c takes
  from headers are parameters of the model: the kernel offset, the two bases of the IMMR
  window and its size in pages, the page and directory shifts, the size of a
  \<open>pte_basic_t\<close>, the size of a page table, the address of the entry for \<open>va\<close> inside a
  page table (\<open>pte_offset_kernel\<close>) or inside a huge page directory
  (\<open>hugepte_offset\<close>), the present test and the constructors of an entry, the linker
  symbols of the kernel image, the two boot flags and the protections.
\<close>

record plat =
  PAGE_OFFSET :: u32
  VIRT_IMMR_BASE :: u32
  PHYS_IMMR_BASE :: u32
  FIX_IMMR_SIZE :: u32
  PAGE_SHIFT :: nat
  PGDIR_SHIFT :: nat
  sizeof_pte_basic_t :: u32
  PTE_TABLE_SIZE :: u32
  pte_offset_kernel :: "u32 \<Rightarrow> u32 \<Rightarrow> u32"
  hugepte_offset :: "u32 \<Rightarrow> u32 \<Rightarrow> nat \<Rightarrow> u32"
  pte_present :: "pte \<Rightarrow> bool"
  pfn_pte :: "u32 \<Rightarrow> pgprot \<Rightarrow> pte"
  pte_mkhuge :: "pte \<Rightarrow> pte"
  etext :: u32
  sinittext :: u32
  einittext :: u32
  strict_kernel_rwx_enabled :: bool
  debug_pagealloc_enabled_or_kfence :: bool
  PAGE_KERNEL :: pgprot
  PAGE_KERNEL_TEXT :: pgprot
  PAGE_KERNEL_NCG :: pgprot

definition IMMR_SIZE :: "plat \<Rightarrow> u32" where
  "IMMR_SIZE pl = push_bit (PAGE_SHIFT pl) (FIX_IMMR_SIZE pl)"

text \<open>
  Modelled from the spec: the linear RAM window starts at physical address 0 and at the
  fixed kernel offset, so \<open>__pa\<close> subtracts \<open>PAGE_OFFSET\<close> and \<open>__va\<close> adds it.
\<close>

definition pa_of :: "plat \<Rightarrow> u32 \<Rightarrow> u32" where
  "pa_of pl va = va - PAGE_OFFSET pl"

definition va_of :: "plat \<Rightarrow> u32 \<Rightarrow> u32" where
  "va_of pl pa = pa + PAGE_OFFSET pl"

definition pmd_off_k :: "plat \<Rightarrow> u32 \<Rightarrow> nat" where
  "pmd_off_k pl va = unat (drop_bit (PGDIR_SHIFT pl) va)"

section \<open>State\<close>

text \<open>
  One installed mapping entry: the arguments of one \<open>set_huge_pte_at\<close> made by
  \<open>__early_map_kernel_hugepage\<close>.
\<close>

record chunk =
  cva :: u32
  cpa :: u32
  cprot :: pgprot
  csize :: u32

text \<open>
  The calls to the collaborators and the store to \<open>block_mapped_ram\<close>, in the order
  they happen.
\<close>

datatype event =
    SetHugePte chunk
  | MemblockAlloc u32 u32 u32
  | FlushTlbKernelRange u32 u32
  | MemblockSetCurrentLimit u32
  | StoreBlockMappedRam u32

text \<open>
  The kernel directory \<open>pgd\<close> (slot index to slot value, 0 for an empty slot), the
  entries \<open>ptes\<close> by address, the blocks the early allocator still has to hand out,
  its current limit, and the globals of 8xx.c.  A pointer to a directory slot
  (\<open>pmd_t *\<close>, \<open>hugepd_t *\<close>) is the index of the slot, so \<open>pmdp + 1\<close> is the next
  slot; a pointer to an entry is its address, NULL is 0.
\<close>

record kstate =
  pgd :: "nat \<Rightarrow> u32"
  ptes :: "u32 \<Rightarrow> pte"
  memblock_pool :: "u32 list"
  memblock_current_limit :: u32
  slab_is_available :: bool
  immr_is_mapped :: bool
  block_mapped_ram :: u32
  trace :: "event list"

fun installed :: "event list \<Rightarrow> chunk list" where
  "installed [] = []"
| "installed (SetHugePte c # es) = c # installed es"
| "installed (e # es) = installed es"

fun stores :: "event list \<Rightarrow> u32 list" where
  "stores [] = []"
| "stores (StoreBlockMappedRam t # es) = t # stores es"
| "stores (e # es) = stores es"

definition emit :: "event \<Rightarrow> kstate \<Rightarrow> kstate" where
  "emit e st = st\<lparr>trace := trace st @ [e]\<rparr>"

text \<open>
  Modelled from the spec: the early allocator, \<open>allocate(size, alignment) -> block | none\<close>.
  It hands out the next block of its pool, or NULL (0) when the pool is empty.
\<close>

definition memblock_alloc :: "u32 \<Rightarrow> u32 \<Rightarrow> kstate \<Rightarrow> u32 \<times> kstate" where
  "memblock_alloc sz al st =
     (case memblock_pool st of
        [] \<Rightarrow> (0, emit (MemblockAlloc sz al 0) st)
      | b # bs \<Rightarrow> (b, emit (MemblockAlloc sz al b) (st\<lparr>memblock_pool := bs\<rparr>)))"

definition memblock_set_current_limit :: "u32 \<Rightarrow> kstate \<Rightarrow> kstate" where
  "memblock_set_current_limit lim st =
     emit (MemblockSetCurrentLimit lim) (st\<lparr>memblock_current_limit := lim\<rparr>)"

definition flush_tlb_kernel_range :: "u32 \<Rightarrow> u32 \<Rightarrow> kstate \<Rightarrow> kstate" where
  "flush_tlb_kernel_range start stop st = emit (FlushTlbKernelRange start stop) st"

text \<open>
  Modelled from the spec: a directory slot is registered by storing the address of its
  sub-table in it.
\<close>

definition hugepd_populate_kernel :: "nat \<Rightarrow> u32 \<Rightarrow> nat \<Rightarrow> kstate \<Rightarrow> kstate" where
  "hugepd_populate_kernel hpdp new pshift st = st\<lparr>pgd := (pgd st)(hpdp := new)\<rparr>"

definition pmd_populate_kernel :: "nat \<Rightarrow> u32 \<Rightarrow> kstate \<Rightarrow> kstate" where
  "pmd_populate_kernel pmdp new st = st\<lparr>pgd := (pgd st)(pmdp := new)\<rparr>"

text \<open>
  Modelled from the spec: the direct entry allocation of the Small class.  An empty slot
  gets a page table from the early allocator; the result is the entry for \<open>va\<close> in the
  slot's page table, NULL when the allocation fails.
\<close>

definition early_pte_alloc_kernel :: "plat \<Rightarrow> nat \<Rightarrow> u32 \<Rightarrow> kstate \<Rightarrow> u32 \<times> kstate" where
  "early_pte_alloc_kernel pl pmdp va st =
     (if pgd st pmdp = 0 then
        (case memblock_alloc (PTE_TABLE_SIZE pl) (PTE_TABLE_SIZE pl) st of (ptep, st1) \<Rightarrow>
           if ptep = 0 then (0, st1)
           else (case pmd_populate_kernel pmdp ptep st1 of st2 \<Rightarrow>
                   (pte_offset_kernel pl (pgd st2 pmdp) va, st2)))
      else (pte_offset_kernel pl (pgd st pmdp) va, st))"

text \<open>
  Modelled from the spec: the install primitive of the mapping-entry table writes one
  entry.
\<close>

definition set_huge_pte_at :: "chunk \<Rightarrow> u32 \<Rightarrow> pte \<Rightarrow> kstate \<Rightarrow> kstate" where
  "set_huge_pte_at c ptep pteval st =
     emit (SetHugePte c) (st\<lparr>ptes := (ptes st)(ptep := pteval)\<rparr>)"

section \<open>The address translator\<close>

definition v_block_mapped :: "plat \<Rightarrow> kstate \<Rightarrow> u32 \<Rightarrow> u32" where
  "v_block_mapped pl st va =
     (let p = PHYS_IMMR_BASE pl in
      if va \<ge> VIRT_IMMR_BASE pl \<and> va < VIRT_IMMR_BASE pl + IMMR_SIZE pl
      then p + va - VIRT_IMMR_BASE pl
      else if va \<ge> PAGE_OFFSET pl \<and> va < PAGE_OFFSET pl + block_mapped_ram st
      then pa_of pl va
      else 0)"

definition p_block_mapped :: "plat \<Rightarrow> kstate \<Rightarrow> u32 \<Rightarrow> u32" where
  "p_block_mapped pl st pa =
     (let p = PHYS_IMMR_BASE pl in
      if pa \<ge> p \<and> pa < p + IMMR_SIZE pl
      then VIRT_IMMR_BASE pl + pa - p
      else if pa < block_mapped_ram st
      then va_of pl pa
      else 0)"

section \<open>The huge entry allocator and the page installer\<close>

definition early_hugepd_alloc_kernel :: "plat \<Rightarrow> nat \<Rightarrow> u32 \<Rightarrow> kstate \<Rightarrow> u32 \<times> kstate" where
  "early_hugepd_alloc_kernel pl pmdp va st =
     (if pgd st pmdp = 0 then
        (case memblock_alloc (sizeof_pte_basic_t pl) SZ_4K st of (ptep, st1) \<Rightarrow>
           if ptep = 0 then (0, st1)
           else (case hugepd_populate_kernel pmdp ptep PAGE_SHIFT_8M st1 of st2 \<Rightarrow>
                 case hugepd_populate_kernel (pmdp + 1) ptep PAGE_SHIFT_8M st2 of st3 \<Rightarrow>
                   (hugepte_offset pl (pgd st3 pmdp) va (PGDIR_SHIFT pl), st3)))
      else (hugepte_offset pl (pgd st pmdp) va (PGDIR_SHIFT pl), st))"

text \<open>
  \<open>__early_map_kernel_hugepage\<close>.  \<open>WARN_ON(c)\<close> prints and has the value of \<open>c\<close>;
  the printing is not modelled.  The result is 0 or a negated error number.
  \<open>locate_pte\<close> is the allocation or lookup of \<open>ptep\<close> (the four assignments to
  \<open>ptep\<close> under \<open>if (new)\<close>).
\<close>

definition locate_pte :: "plat \<Rightarrow> u32 \<Rightarrow> psize \<Rightarrow> bool \<Rightarrow> kstate \<Rightarrow> u32 \<times> kstate" where
  "locate_pte pl va psz new st =
     (let pmdp = pmd_off_k pl va in
      if new then
        (if psz = MMU_PAGE_512K then early_pte_alloc_kernel pl pmdp va st
         else early_hugepd_alloc_kernel pl pmdp va st)
      else
        (if psz = MMU_PAGE_512K then (pte_offset_kernel pl (pgd st pmdp) va, st)
         else (hugepte_offset pl (pgd st pmdp) va (PGDIR_SHIFT pl), st)))"

definition early_map_kernel_hugepage ::
  "plat \<Rightarrow> u32 \<Rightarrow> u32 \<Rightarrow> pgprot \<Rightarrow> psize \<Rightarrow> bool \<Rightarrow> kstate \<Rightarrow> int \<times> kstate" where
  "early_map_kernel_hugepage pl va pa prot psz new st =
     (if psz \<noteq> MMU_PAGE_512K \<and> psz \<noteq> MMU_PAGE_8M then (- EINVAL, st)
      else if new \<and> slab_is_available st then (- EINVAL, st)
      else
        (case locate_pte pl va psz new st of (ptep, st1) \<Rightarrow>
           if ptep = 0 then (- ENOMEM, st1)
           else if new \<and> pte_present pl (ptes st1 ptep) \<and> prot \<noteq> 0 then (- EINVAL, st1)
           else (0, set_huge_pte_at
                      \<lparr>cva = va, cpa = pa, cprot = prot,
                       csize = push_bit (mmu_psize_to_shift psz) 1\<rparr>
                      ptep (pte_mkhuge pl (pfn_pte pl (drop_bit (PAGE_SHIFT pl) pa) prot)) st1)))"

section \<open>Alignment arithmetic\<close>

lemma unat_u32_bound: "unat (x :: u32) < 4294967296"
  using unsigned_less [of x] by simp

lemma unat_and_mask: "unat ((x :: u32) AND mask n) = unat x mod 2 ^ n"
proof -
  have "unat (x AND mask n) = unat (take_bit n x)"
    by (simp only: take_bit_eq_mask)
  also have "\<dots> = take_bit n (unat x)"
    by (rule unsigned_take_bit_eq)
  also have "\<dots> = unat x mod 2 ^ n"
    by (rule take_bit_eq_mod)
  finally show ?thesis .
qed

lemma and_not_mask_diff: "(x :: u32) AND NOT (mask n) = x - (x AND mask n)"
proof -
  have "NOT x AND (x AND mask n) = 0"
    by (simp flip: and.assoc)
  then show ?thesis
    by (simp add: disjunctive_diff_eq_and_not bit.conj_disj_distrib)
qed

lemma unat_and_not_mask: "unat ((x :: u32) AND NOT (mask n)) = unat x - unat x mod 2 ^ n"
proof -
  have "x AND mask n \<le> x"
    by (rule word_and_le2)
  then show ?thesis
    by (simp add: and_not_mask_diff unat_sub unat_and_mask)
qed

lemma SZ_8M_mask: "SZ_8M - 1 = mask 23"
  by (simp add: mask_eq_exp_minus_1 SZ_8M_def)

lemma SZ_512K_mask: "SZ_512K - 1 = mask 19"
  by (simp add: mask_eq_exp_minus_1 SZ_512K_def)

lemma unat_SZ_512K: "unat SZ_512K = 524288"
  by (simp add: SZ_512K_def)

lemma unat_SZ_8M: "unat SZ_8M = 8388608"
  by (simp add: SZ_8M_def)

lemma ALIGN_DOWN_eq: "ALIGN_DOWN x a = x AND NOT (a - 1)"
  by (simp add: ALIGN_DOWN_def ALIGN_def)

lemma unat_ALIGN_DOWN_8M: "unat (ALIGN_DOWN x SZ_8M) = unat x - unat x mod 8388608"
  by (simp add: ALIGN_DOWN_eq SZ_8M_mask unat_and_not_mask)

lemma unat_ALIGN_DOWN_512K: "unat (ALIGN_DOWN x SZ_512K) = unat x - unat x mod 524288"
  by (simp add: ALIGN_DOWN_eq SZ_512K_mask unat_and_not_mask)

lemma unat_ALIGN_8M:
  "unat (ALIGN x SZ_8M) =
     (unat x + 8388607) mod 4294967296 - (unat x + 8388607) mod 4294967296 mod 8388608"
proof -
  have "unat (ALIGN x SZ_8M) = unat ((x + (SZ_8M - 1)) AND NOT (mask 23))"
    by (simp only: ALIGN_def SZ_8M_mask)
  also have "\<dots> = unat (x + (SZ_8M - 1)) - unat (x + (SZ_8M - 1)) mod 2 ^ 23"
    by (rule unat_and_not_mask)
  also have "unat (x + (SZ_8M - 1)) = (unat x + 8388607) mod 4294967296"
    by (simp add: unat_word_ariths SZ_8M_def)
  finally show ?thesis
    by simp
qed

lemma IS_ALIGNED_512K: "IS_ALIGNED x SZ_512K \<longleftrightarrow> unat x mod 524288 = 0"
  by (simp add: IS_ALIGNED_def SZ_512K_mask unat_eq_0 [symmetric] unat_and_mask
      del: unat_eq_0)

lemma IS_ALIGNED_8M: "IS_ALIGNED x SZ_8M \<longleftrightarrow> unat x mod 8388608 = 0"
  by (simp add: IS_ALIGNED_def SZ_8M_mask unat_eq_0 [symmetric] unat_and_mask
      del: unat_eq_0)

lemma round_down_8M_room:
  fixes y :: nat
  assumes "y < 4294967296"
  shows "y - y mod 8388608 \<le> 4286578688"
proof -
  have "y div 8388608 < 512"
    using assms by (simp add: div_less_iff_less_mult)
  moreover have "y - y mod 8388608 = 8388608 * (y div 8388608)"
    by (simp add: minus_mod_eq_mult_div)
  ultimately show ?thesis
    by linarith
qed

lemma round_down_512K_room:
  fixes y :: nat
  assumes "y < 4294967296"
  shows "y - y mod 524288 \<le> 4294443008"
proof -
  have "y div 524288 < 8192"
    using assms by (simp add: div_less_iff_less_mult)
  moreover have "y - y mod 524288 = 524288 * (y div 524288)"
    by (simp add: minus_mod_eq_mult_div)
  ultimately show ?thesis
    by linarith
qed

lemma head_step:
  assumes "p < ALIGN p SZ_8M"
  shows "unat (p + SZ_512K) = unat p + 524288"
proof -
  have "unat (ALIGN p SZ_8M) \<le> 4286578688"
    unfolding unat_ALIGN_8M by (rule round_down_8M_room) simp
  with assms have "unat p < 4286578688"
    by (simp add: word_less_nat_alt)
  then show ?thesis
    by (simp add: unat_word_ariths unat_SZ_512K)
qed

lemma huge_step:
  assumes "p < ALIGN_DOWN ptop SZ_8M"
  shows "unat (p + SZ_8M) = unat p + 8388608"
proof -
  have "unat (ALIGN_DOWN ptop SZ_8M) \<le> 4286578688"
    unfolding unat_ALIGN_DOWN_8M by (rule round_down_8M_room) (rule unat_u32_bound)
  with assms have "unat p < 4286578688"
    by (simp add: word_less_nat_alt)
  then show ?thesis
    by (simp add: unat_word_ariths unat_SZ_8M)
qed

lemma tail_step:
  assumes "p < ALIGN_DOWN ptop SZ_512K"
  shows "unat (p + SZ_512K) = unat p + 524288"
proof -
  have "unat (ALIGN_DOWN ptop SZ_512K) \<le> 4294443008"
    unfolding unat_ALIGN_DOWN_512K by (rule round_down_512K_room) (rule unat_u32_bound)
  with assms have "unat p < 4294443008"
    by (simp add: word_less_nat_alt)
  then show ?thesis
    by (simp add: unat_word_ariths unat_SZ_512K)
qed

section \<open>The range mapper\<close>

text \<open>
  The three loops of \<open>mmu_mapin_ram_chunk\<close> on the loop variables \<open>(p, v, err)\<close> and
  the state.  The argument \<open>top\<close> of the source is \<open>ptop\<close> here.  Each loop ends: its
  bound is a multiple of the step below \<open>2\<^sup>3\<^sup>2\<close>, so \<open>p\<close> grows without wrapping.
\<close>

function mapin_head ::
  "plat \<Rightarrow> u32 \<Rightarrow> pgprot \<Rightarrow> bool \<Rightarrow> u32 \<Rightarrow> u32 \<Rightarrow> int \<Rightarrow> kstate \<Rightarrow> u32 \<times> u32 \<times> int \<times> kstate" where
  "mapin_head pl ptop prot new p v err st =
     (if p < ALIGN p SZ_8M \<and> p < ptop \<and> err = 0 then
        (case early_map_kernel_hugepage pl v p prot MMU_PAGE_512K new st of (err', st') \<Rightarrow>
           mapin_head pl ptop prot new (p + SZ_512K) (v + SZ_512K) err' st')
      else (p, v, err, st))"
  by pat_completeness auto
termination
proof (relation "measure (\<lambda>(pl, ptop, prot, new, p, v, err, st). unat ptop - unat p)")
  show "wf (measure (\<lambda>(pl, ptop, prot, new, p, v, err, st). unat ptop - unat p))"
    by simp
next
  fix pl :: plat and ptop prot :: u32 and new :: bool and p v :: u32 and err :: int
    and st :: kstate and x :: "int \<times> kstate" and x1 x2
  assume "p < ALIGN p SZ_8M \<and> p < ptop \<and> err = 0"
  then have guard: "p < ALIGN p SZ_8M" and below: "p < ptop"
    by simp_all
  have "unat (p + SZ_512K) = unat p + 524288"
    using guard by (rule head_step)
  moreover have "unat p < unat ptop"
    using below by (simp add: word_less_nat_alt)
  ultimately show "((pl, ptop, prot, new, p + SZ_512K, v + SZ_512K, x1, x2),
              (pl, ptop, prot, new, p, v, err, st))
             \<in> measure (\<lambda>(pl, ptop, prot, new, p, v, err, st). unat ptop - unat p)"
    by simp
qed

function mapin_huge ::
  "plat \<Rightarrow> u32 \<Rightarrow> pgprot \<Rightarrow> bool \<Rightarrow> u32 \<Rightarrow> u32 \<Rightarrow> int \<Rightarrow> kstate \<Rightarrow> u32 \<times> u32 \<times> int \<times> kstate" where
  "mapin_huge pl ptop prot new p v err st =
     (if p < ALIGN_DOWN ptop SZ_8M \<and> p < ptop \<and> err = 0 then
        (case early_map_kernel_hugepage pl v p prot MMU_PAGE_8M new st of (err', st') \<Rightarrow>
           mapin_huge pl ptop prot new (p + SZ_8M) (v + SZ_8M) err' st')
      else (p, v, err, st))"
  by pat_completeness auto
termination
proof (relation "measure (\<lambda>(pl, ptop, prot, new, p, v, err, st). unat ptop - unat p)")
  show "wf (measure (\<lambda>(pl, ptop, prot, new, p, v, err, st). unat ptop - unat p))"
    by simp
next
  fix pl :: plat and ptop prot :: u32 and new :: bool and p v :: u32 and err :: int
    and st :: kstate and x :: "int \<times> kstate" and x1 x2
  assume "p < ALIGN_DOWN ptop SZ_8M \<and> p < ptop \<and> err = 0"
  then have guard: "p < ALIGN_DOWN ptop SZ_8M" and below: "p < ptop"
    by simp_all
  have "unat (p + SZ_8M) = unat p + 8388608"
    using guard by (rule huge_step)
  moreover have "unat p < unat ptop"
    using below by (simp add: word_less_nat_alt)
  ultimately show "((pl, ptop, prot, new, p + SZ_8M, v + SZ_8M, x1, x2),
              (pl, ptop, prot, new, p, v, err, st))
             \<in> measure (\<lambda>(pl, ptop, prot, new, p, v, err, st). unat ptop - unat p)"
    by simp
qed

function mapin_tail ::
  "plat \<Rightarrow> u32 \<Rightarrow> pgprot \<Rightarrow> bool \<Rightarrow> u32 \<Rightarrow> u32 \<Rightarrow> int \<Rightarrow> kstate \<Rightarrow> u32 \<times> u32 \<times> int \<times> kstate" where
  "mapin_tail pl ptop prot new p v err st =
     (if p < ALIGN_DOWN ptop SZ_512K \<and> p < ptop \<and> err = 0 then
        (case early_map_kernel_hugepage pl v p prot MMU_PAGE_512K new st of (err', st') \<Rightarrow>
           mapin_tail pl ptop prot new (p + SZ_512K) (v + SZ_512K) err' st')
      else (p, v, err, st))"
  by pat_completeness auto
termination
proof (relation "measure (\<lambda>(pl, ptop, prot, new, p, v, err, st). unat ptop - unat p)")
  show "wf (measure (\<lambda>(pl, ptop, prot, new, p, v, err, st). unat ptop - unat p))"
    by simp
next
  fix pl :: plat and ptop prot :: u32 and new :: bool and p v :: u32 and err :: int
    and st :: kstate and x :: "int \<times> kstate" and x1 x2
  assume "p < ALIGN_DOWN ptop SZ_512K \<and> p < ptop \<and> err = 0"
  then have guard: "p < ALIGN_DOWN ptop SZ_512K" and below: "p < ptop"
    by simp_all
  have "unat (p + SZ_512K) = unat p + 524288"
    using guard by (rule tail_step)
  moreover have "unat p < unat ptop"
    using below by (simp add: word_less_nat_alt)
  ultimately show "((pl, ptop, prot, new, p + SZ_512K, v + SZ_512K, x1, x2),
              (pl, ptop, prot, new, p, v, err, st))
             \<in> measure (\<lambda>(pl, ptop, prot, new, p, v, err, st). unat ptop - unat p)"
    by simp
qed

declare mapin_head.simps [simp del] mapin_huge.simps [simp del] mapin_tail.simps [simp del]

text \<open>
  \<open>mmu_mapin_ram_chunk\<close>: the three loops one after the other on the same \<open>p\<close>, \<open>v\<close>
  and \<open>err\<close>, then the flush when \<open>new\<close> is false.  The \<open>WARN_ON\<close> on unaligned
  arguments only prints; the loops run on them all the same.
\<close>

definition mmu_mapin_ram_chunk ::
  "plat \<Rightarrow> u32 \<Rightarrow> u32 \<Rightarrow> pgprot \<Rightarrow> bool \<Rightarrow> kstate \<Rightarrow> int \<times> kstate" where
  "mmu_mapin_ram_chunk pl offset ptop prot new st =
     (case mapin_head pl ptop prot new offset (PAGE_OFFSET pl + offset) 0 st of
        (p1, v1, err1, st1) \<Rightarrow>
      case mapin_huge pl ptop prot new p1 v1 err1 st1 of (p2, v2, err2, st2) \<Rightarrow>
      case mapin_tail pl ptop prot new p2 v2 err2 st2 of (p3, v3, err3, st3) \<Rightarrow>
        (err3,
         if \<not> new then flush_tlb_kernel_range (PAGE_OFFSET pl + v3) (PAGE_OFFSET pl + ptop) st3
         else st3))"

section \<open>The boot mapper and the window limiter\<close>

definition mmu_mapin_immr :: "plat \<Rightarrow> kstate \<Rightarrow> kstate" where
  "mmu_mapin_immr pl st =
     (if immr_is_mapped st then st
      else snd (early_map_kernel_hugepage pl (VIRT_IMMR_BASE pl) (PHYS_IMMR_BASE pl)
                  (PAGE_KERNEL_NCG pl) MMU_PAGE_512K True (st\<lparr>immr_is_mapped := True\<rparr>)))"

text \<open>
  \<open>mmu_mapin_ram\<close>.  The results of the calls to \<open>mmu_mapin_ram_chunk\<close> are dropped, as
  in the source; \<open>WARN_ON(top < einittext8)\<close> only prints.
\<close>

definition mmu_mapin_ram :: "plat \<Rightarrow> u32 \<Rightarrow> u32 \<Rightarrow> kstate \<Rightarrow> u32 \<times> kstate" where
  "mmu_mapin_ram pl base ptop st =
     (let etext8 = ALIGN (pa_of pl (etext pl)) SZ_8M;
          sinittext_pa = pa_of pl (sinittext pl);
          strict_boundary =
            (strict_kernel_rwx_enabled pl \<or> debug_pagealloc_enabled_or_kfence pl);
          boundary = (if strict_boundary then sinittext_pa else etext8);
          einittext8 = ALIGN (pa_of pl (einittext pl)) SZ_8M;
          st1 = mmu_mapin_immr pl st;
          st2 = snd (mmu_mapin_ram_chunk pl 0 boundary (PAGE_KERNEL_TEXT pl) True st1);
          (ptop', st3) =
            (if debug_pagealloc_enabled_or_kfence pl then (boundary, st2)
             else (ptop,
                   snd (mmu_mapin_ram_chunk pl einittext8 ptop (PAGE_KERNEL pl) True
                     (snd (mmu_mapin_ram_chunk pl boundary einittext8
                            (PAGE_KERNEL_TEXT pl) True st2)))));
          st4 = (if ptop' > SZ_32M then memblock_set_current_limit ptop' st3 else st3)
      in (ptop', emit (StoreBlockMappedRam ptop') (st4\<lparr>block_mapped_ram := ptop'\<rparr>)))"

text \<open>
  \<open>setup_initial_memory_limit\<close>: \<open>BUG_ON\<close> stops the kernel, which is the error
  \<open>BUG\<close>; \<open>min_t(u64, ...)\<close> compares the two values as 64-bit words, and the result
  is passed as a \<open>phys_addr_t\<close>.
\<close>

datatype fatal = BUG

definition setup_initial_memory_limit :: "u32 \<Rightarrow> u32 \<Rightarrow> kstate \<Rightarrow> fatal + kstate" where
  "setup_initial_memory_limit first_memblock_base first_memblock_size st =
     (if first_memblock_base \<noteq> 0 then Inl BUG
      else Inr (memblock_set_current_limit
                  (ucast (min (ucast first_memblock_size :: 64 word) (ucast SZ_32M)))
                  st))"

section \<open>An example platform\<close>

text \<open>
  An MPC8xx configuration with 4 KB pages, and the state in which the boot mapper starts:
  empty directory, six blocks left in the early allocator.
\<close>

definition mpc8xx :: plat where
  "mpc8xx = \<lparr>
     PAGE_OFFSET = 0xC0000000,
     VIRT_IMMR_BASE = 0xFFF00000,
     PHYS_IMMR_BASE = 0xFF000000,
     FIX_IMMR_SIZE = 128,
     PAGE_SHIFT = 12,
     PGDIR_SHIFT = 22,
     sizeof_pte_basic_t = 4,
     PTE_TABLE_SIZE = 4096,
     pte_offset_kernel = (\<lambda>tbl va. tbl + 4 * (drop_bit 12 va AND 0x3FF)),
     hugepte_offset = (\<lambda>hpd va pdshift. hpd + 4 * drop_bit 23 (take_bit pdshift va)),
     pte_present = (\<lambda>e. e AND 1 \<noteq> 0),
     pfn_pte = (\<lambda>pfn prot. push_bit 12 pfn OR prot),
     pte_mkhuge = (\<lambda>e. e OR 0x800),
     etext = 0xC0700000,
     sinittext = 0xC0900000,
     einittext = 0xC0980000,
     strict_kernel_rwx_enabled = False,
     debug_pagealloc_enabled_or_kfence = False,
     PAGE_KERNEL = 0x1F1,
     PAGE_KERNEL_TEXT = 0x1D1,
     PAGE_KERNEL_NCG = 0x1F3
   \<rparr>"

definition boot_state :: kstate where
  "boot_state = \<lparr>
     pgd = (\<lambda>i. 0),
     ptes = (\<lambda>a. 0),
     memblock_pool = [0x1FFF000, 0x1FFE000, 0x1FFD000, 0x1FFC000, 0x1FFB000, 0x1FFA000],
     memblock_current_limit = 0x2000000,
     slab_is_available = False,
     immr_is_mapped = False,
     block_mapped_ram = 0,
     trace = []
   \<rparr>"

text \<open>The same state once 24 MB of RAM are block-mapped.\<close>

definition mapped_state :: kstate where
  "mapped_state = boot_state\<lparr>block_mapped_ram := 0x1800000\<rparr>"

definition huge_mapped_state :: kstate where
  "huge_mapped_state =
     snd (early_map_kernel_hugepage mpc8xx 0xC0000000 0 (PAGE_KERNEL mpc8xx) MMU_PAGE_8M True
            boot_state)"

definition small_mapped_state :: kstate where
  "small_mapped_state =
     snd (mmu_mapin_ram_chunk mpc8xx 0 0x80000 (PAGE_KERNEL_TEXT mpc8xx) True boot_state)"

definition mpc8xx_debug :: plat where
  "mpc8xx_debug = mpc8xx\<lparr>debug_pagealloc_enabled_or_kfence := True\<rparr>"

text \<open>
  A configuration whose MMIO window lies inside the RAM window of \<open>mapped_state\<close>,
  physically and virtually.
\<close>

definition mpc8xx_overlap :: plat where
  "mpc8xx_overlap = mpc8xx\<lparr>VIRT_IMMR_BASE := 0xC0800000, PHYS_IMMR_BASE := 0x1000000\<rparr>"

section \<open>Vocabulary of the properties\<close>

definition in_virt_immr :: "plat \<Rightarrow> u32 \<Rightarrow> bool" where
  "in_virt_immr pl va \<longleftrightarrow> va \<ge> VIRT_IMMR_BASE pl \<and> va < VIRT_IMMR_BASE pl + IMMR_SIZE pl"

definition in_virt_ram :: "plat \<Rightarrow> kstate \<Rightarrow> u32 \<Rightarrow> bool" where
  "in_virt_ram pl st va \<longleftrightarrow> va \<ge> PAGE_OFFSET pl \<and> va < PAGE_OFFSET pl + block_mapped_ram st"

definition in_phys_immr :: "plat \<Rightarrow> u32 \<Rightarrow> bool" where
  "in_phys_immr pl pa \<longleftrightarrow> pa \<ge> PHYS_IMMR_BASE pl \<and> pa < PHYS_IMMR_BASE pl + IMMR_SIZE pl"

definition in_phys_ram :: "kstate \<Rightarrow> u32 \<Rightarrow> bool" where
  "in_phys_ram st pa \<longleftrightarrow> pa < block_mapped_ram st"

definition windows_wf :: "plat \<Rightarrow> kstate \<Rightarrow> bool" where
  "windows_wf pl st \<longleftrightarrow>
     unat (VIRT_IMMR_BASE pl) + unat (IMMR_SIZE pl) < 2 ^ 32 \<and>
     unat (PHYS_IMMR_BASE pl) + unat (IMMR_SIZE pl) < 2 ^ 32 \<and>
     unat (PAGE_OFFSET pl) + unat (block_mapped_ram st) < 2 ^ 32 \<and>
     (unat (VIRT_IMMR_BASE pl) + unat (IMMR_SIZE pl) \<le> unat (PAGE_OFFSET pl) \<or>
      unat (PAGE_OFFSET pl) + unat (block_mapped_ram st) \<le> unat (VIRT_IMMR_BASE pl)) \<and>
     unat (block_mapped_ram st) \<le> unat (PHYS_IMMR_BASE pl)"

fun tiles :: "(chunk \<Rightarrow> u32) \<Rightarrow> nat \<Rightarrow> nat \<Rightarrow> chunk list \<Rightarrow> bool" where
  "tiles f a b [] = (a = b)"
| "tiles f a b (c # cs) =
     (unat (f c) = a \<and> (csize c = SZ_512K \<or> csize c = SZ_8M) \<and>
      tiles f (a + unat (csize c)) b cs)"

text \<open>
  From \<open>st\<close> to \<open>st'\<close> the trace has grown by installs and allocations only, and
  \<open>block_mapped_ram\<close> has kept its value.
\<close>

fun mapping_event :: "event \<Rightarrow> bool" where
  "mapping_event (SetHugePte c) = True"
| "mapping_event (MemblockAlloc sz al b) = True"
| "mapping_event e = False"

definition quiet :: "kstate \<Rightarrow> kstate \<Rightarrow> bool" where
  "quiet st st' \<longleftrightarrow>
     (\<exists>evs. trace st' = trace st @ evs \<and> list_all mapping_event evs) \<and>
     block_mapped_ram st' = block_mapped_ram st"

text \<open>
  What one loop has done when it goes from \<open>(p, v)\<close> in \<open>st\<close> to \<open>(p', v')\<close> in
  \<open>st'\<close> with chunks of size \<open>S\<close>.
\<close>

definition loop_post ::
  "u32 \<Rightarrow> u32 \<Rightarrow> u32 \<Rightarrow> kstate \<Rightarrow> u32 \<Rightarrow> u32 \<Rightarrow> int \<Rightarrow> kstate \<Rightarrow> bool" where
  "loop_post S p v st p' v' err' st' \<longleftrightarrow>
     (\<exists>cs. installed (trace st') = installed (trace st) @ cs \<and>
        (\<forall>c \<in> set cs. csize c = S \<and> cva c - cpa c = v - p \<and>
           (\<exists>k. unat (cpa c) = unat p + k * unat S) \<and>
           unat (cpa c) + unat S \<le> unat p') \<and>
        v' - p' = v - p \<and>
        (\<exists>n. unat p' = unat p + n * unat S) \<and>
        (err' = 0 \<longrightarrow> tiles cpa (unat p) (unat p') cs)) \<and>
     quiet st st'"

text \<open>The chunks installed between two states.\<close>

definition new_chunks :: "kstate \<Rightarrow> kstate \<Rightarrow> chunk list" where
  "new_chunks st st' = drop (length (installed (trace st))) (installed (trace st'))"


text \<open>
  From \<open>st\<close> to \<open>st'\<close> the trace has grown without a store to \<open>block_mapped_ram\<close>,
  which has kept its value.
\<close>

definition nostore :: "kstate \<Rightarrow> kstate \<Rightarrow> bool" where
  "nostore st st' \<longleftrightarrow>
     (\<exists>evs. trace st' = trace st @ evs \<and> stores evs = []) \<and>
     block_mapped_ram st' = block_mapped_ram st"

section \<open>Lemmas\<close>

subsection \<open>Address translation\<close>

lemma unat_add_nowrap:
  "unat (a :: u32) + unat b < 2 ^ 32 \<Longrightarrow> unat (a + b) = unat a + unat b"
  using unat_add_lem [of a b] by simp

lemma immr_p_to_v:
  assumes wf: "windows_wf pl st" and win: "in_phys_immr pl pa"
  shows "in_virt_immr pl (VIRT_IMMR_BASE pl + pa - PHYS_IMMR_BASE pl)"
proof -
  let ?d = "pa - PHYS_IMMR_BASE pl"
  have le: "PHYS_IMMR_BASE pl \<le> pa"
    using win by (simp add: in_phys_immr_def)
  have top: "unat (PHYS_IMMR_BASE pl + IMMR_SIZE pl) =
      unat (PHYS_IMMR_BASE pl) + unat (IMMR_SIZE pl)"
    using wf by (intro unat_add_nowrap) (simp add: windows_wf_def)
  have "unat pa < unat (PHYS_IMMR_BASE pl) + unat (IMMR_SIZE pl)"
    using win top by (simp add: in_phys_immr_def word_less_nat_alt)
  moreover have d: "unat ?d = unat pa - unat (PHYS_IMMR_BASE pl)"
    using le by (rule unat_sub)
  moreover have "unat (PHYS_IMMR_BASE pl) \<le> unat pa"
    using le by (simp add: word_le_nat_alt)
  ultimately have small: "unat ?d < unat (IMMR_SIZE pl)"
    by linarith
  have vtop: "unat (VIRT_IMMR_BASE pl + IMMR_SIZE pl) =
      unat (VIRT_IMMR_BASE pl) + unat (IMMR_SIZE pl)"
    using wf by (intro unat_add_nowrap) (simp add: windows_wf_def)
  have "unat (VIRT_IMMR_BASE pl) + unat ?d < 2 ^ 32"
    using wf small by (simp add: windows_wf_def)
  then have "unat (VIRT_IMMR_BASE pl + ?d) = unat (VIRT_IMMR_BASE pl) + unat ?d"
    by (rule unat_add_nowrap)
  with small vtop have "in_virt_immr pl (VIRT_IMMR_BASE pl + ?d)"
    by (simp add: in_virt_immr_def word_le_nat_alt word_less_nat_alt)
  then show ?thesis
    by (simp add: algebra_simps)
qed

lemma immr_v_to_p:
  assumes wf: "windows_wf pl st" and win: "in_virt_immr pl va"
  shows "in_phys_immr pl (PHYS_IMMR_BASE pl + va - VIRT_IMMR_BASE pl)"
proof -
  let ?d = "va - VIRT_IMMR_BASE pl"
  have le: "VIRT_IMMR_BASE pl \<le> va"
    using win by (simp add: in_virt_immr_def)
  have top: "unat (VIRT_IMMR_BASE pl + IMMR_SIZE pl) =
      unat (VIRT_IMMR_BASE pl) + unat (IMMR_SIZE pl)"
    using wf by (intro unat_add_nowrap) (simp add: windows_wf_def)
  have "unat va < unat (VIRT_IMMR_BASE pl) + unat (IMMR_SIZE pl)"
    using win top by (simp add: in_virt_immr_def word_less_nat_alt)
  moreover have d: "unat ?d = unat va - unat (VIRT_IMMR_BASE pl)"
    using le by (rule unat_sub)
  moreover have "unat (VIRT_IMMR_BASE pl) \<le> unat va"
    using le by (simp add: word_le_nat_alt)
  ultimately have small: "unat ?d < unat (IMMR_SIZE pl)"
    by linarith
  have ptop: "unat (PHYS_IMMR_BASE pl + IMMR_SIZE pl) =
      unat (PHYS_IMMR_BASE pl) + unat (IMMR_SIZE pl)"
    using wf by (intro unat_add_nowrap) (simp add: windows_wf_def)
  have "unat (PHYS_IMMR_BASE pl) + unat ?d < 2 ^ 32"
    using wf small by (simp add: windows_wf_def)
  then have "unat (PHYS_IMMR_BASE pl + ?d) = unat (PHYS_IMMR_BASE pl) + unat ?d"
    by (rule unat_add_nowrap)
  with small ptop have "in_phys_immr pl (PHYS_IMMR_BASE pl + ?d)"
    by (simp add: in_phys_immr_def word_le_nat_alt word_less_nat_alt)
  then show ?thesis
    by (simp add: algebra_simps)
qed

lemma ram_p_to_v:
  assumes wf: "windows_wf pl st" and win: "in_phys_ram st pa"
  shows "in_virt_ram pl st (va_of pl pa) \<and> \<not> in_virt_immr pl (va_of pl pa)"
proof -
  have lt: "unat pa < unat (block_mapped_ram st)"
    using win by (simp add: in_phys_ram_def word_less_nat_alt)
  have rtop: "unat (PAGE_OFFSET pl + block_mapped_ram st) =
      unat (PAGE_OFFSET pl) + unat (block_mapped_ram st)"
    using wf by (intro unat_add_nowrap) (simp add: windows_wf_def)
  have vtop: "unat (VIRT_IMMR_BASE pl + IMMR_SIZE pl) =
      unat (VIRT_IMMR_BASE pl) + unat (IMMR_SIZE pl)"
    using wf by (intro unat_add_nowrap) (simp add: windows_wf_def)
  have "unat (PAGE_OFFSET pl) + unat pa < 2 ^ 32"
    using wf lt by (simp add: windows_wf_def)
  then have va: "unat (PAGE_OFFSET pl + pa) = unat (PAGE_OFFSET pl) + unat pa"
    by (rule unat_add_nowrap)
  have apart: "unat (VIRT_IMMR_BASE pl) + unat (IMMR_SIZE pl) \<le> unat (PAGE_OFFSET pl) \<or>
      unat (PAGE_OFFSET pl) + unat (block_mapped_ram st) \<le> unat (VIRT_IMMR_BASE pl)"
    using wf by (simp add: windows_wf_def)
  have "in_virt_ram pl st (PAGE_OFFSET pl + pa)"
    using lt va rtop by (simp add: in_virt_ram_def word_le_nat_alt word_less_nat_alt)
  moreover have "\<not> in_virt_immr pl (PAGE_OFFSET pl + pa)"
    using lt va vtop apart
    by (auto simp: in_virt_immr_def word_le_nat_alt word_less_nat_alt)
  ultimately show ?thesis
    by (simp add: va_of_def add.commute)
qed

lemma ram_v_to_p:
  assumes wf: "windows_wf pl st" and win: "in_virt_ram pl st va"
  shows "in_phys_ram st (pa_of pl va) \<and> \<not> in_phys_immr pl (pa_of pl va)"
proof -
  have le: "PAGE_OFFSET pl \<le> va"
    using win by (simp add: in_virt_ram_def)
  have rtop: "unat (PAGE_OFFSET pl + block_mapped_ram st) =
      unat (PAGE_OFFSET pl) + unat (block_mapped_ram st)"
    using wf by (intro unat_add_nowrap) (simp add: windows_wf_def)
  have "unat va < unat (PAGE_OFFSET pl) + unat (block_mapped_ram st)"
    using win rtop by (simp add: in_virt_ram_def word_less_nat_alt)
  moreover have "unat (va - PAGE_OFFSET pl) = unat va - unat (PAGE_OFFSET pl)"
    using le by (rule unat_sub)
  moreover have "unat (PAGE_OFFSET pl) \<le> unat va"
    using le by (simp add: word_le_nat_alt)
  ultimately have small: "unat (va - PAGE_OFFSET pl) < unat (block_mapped_ram st)"
    by linarith
  moreover have "unat (block_mapped_ram st) \<le> unat (PHYS_IMMR_BASE pl)"
    using wf by (simp add: windows_wf_def)
  ultimately show ?thesis
    by (simp add: in_phys_ram_def in_phys_immr_def pa_of_def word_le_nat_alt
        word_less_nat_alt)
qed

lemma v_block_mapped_windows:
  "v_block_mapped pl st va =
     (if in_virt_immr pl va then PHYS_IMMR_BASE pl + va - VIRT_IMMR_BASE pl
      else if in_virt_ram pl st va then pa_of pl va else 0)"
  by (simp add: v_block_mapped_def in_virt_immr_def in_virt_ram_def Let_def)

lemma p_block_mapped_windows:
  "p_block_mapped pl st pa =
     (if in_phys_immr pl pa then VIRT_IMMR_BASE pl + pa - PHYS_IMMR_BASE pl
      else if in_phys_ram st pa then va_of pl pa else 0)"
  by (simp add: p_block_mapped_def in_phys_immr_def in_phys_ram_def Let_def)

lemma v_of_p:
  assumes wf: "windows_wf pl st" and win: "in_phys_immr pl pa \<or> in_phys_ram st pa"
  shows "v_block_mapped pl st (p_block_mapped pl st pa) = pa"
proof (cases "in_phys_immr pl pa")
  case True
  then have "in_virt_immr pl (VIRT_IMMR_BASE pl + pa - PHYS_IMMR_BASE pl)"
    using wf by (intro immr_p_to_v)
  with True show ?thesis
    by (simp add: v_block_mapped_windows p_block_mapped_windows)
next
  case False
  with win have ram: "in_phys_ram st pa"
    by simp
  have "in_virt_ram pl st (va_of pl pa) \<and> \<not> in_virt_immr pl (va_of pl pa)"
    using wf ram by (rule ram_p_to_v)
  with False ram show ?thesis
    by (simp add: v_block_mapped_windows p_block_mapped_windows) (simp add: pa_of_def va_of_def)
qed

lemma p_of_v:
  assumes wf: "windows_wf pl st" and win: "in_virt_immr pl va \<or> in_virt_ram pl st va"
  shows "p_block_mapped pl st (v_block_mapped pl st va) = va"
proof (cases "in_virt_immr pl va")
  case True
  then have "in_phys_immr pl (PHYS_IMMR_BASE pl + va - VIRT_IMMR_BASE pl)"
    using wf by (intro immr_v_to_p)
  with True show ?thesis
    by (simp add: v_block_mapped_windows p_block_mapped_windows)
next
  case False
  with win have ram: "in_virt_ram pl st va"
    by simp
  have "in_phys_ram st (pa_of pl va) \<and> \<not> in_phys_immr pl (pa_of pl va)"
    using wf ram by (rule ram_v_to_p)
  with False ram show ?thesis
    by (simp add: v_block_mapped_windows p_block_mapped_windows) (simp add: pa_of_def va_of_def)
qed

subsection \<open>Traces of the installer\<close>

lemma installed_append: "installed (xs @ ys) = installed xs @ installed ys"
  by (induction xs rule: installed.induct) simp_all

lemma tiles_append:
  "tiles f a b xs \<Longrightarrow> tiles f b c ys \<Longrightarrow> tiles f a c (xs @ ys)"
  by (induction xs arbitrary: a) auto

lemma installed_memblock_alloc:
  "memblock_alloc sz al st = (b, s) \<Longrightarrow> installed (trace s) = installed (trace st)"
  by (auto simp: memblock_alloc_def emit_def installed_append split: list.splits)

lemma installed_early_pte_alloc_kernel:
  "early_pte_alloc_kernel pl pmdp va st = (ptep, s) \<Longrightarrow>
   installed (trace s) = installed (trace st)"
  by (auto simp: early_pte_alloc_kernel_def pmd_populate_kernel_def
      dest: installed_memblock_alloc split: if_splits prod.splits)

lemma installed_early_hugepd_alloc_kernel:
  "early_hugepd_alloc_kernel pl pmdp va st = (ptep, s) \<Longrightarrow>
   installed (trace s) = installed (trace st)"
  by (auto simp: early_hugepd_alloc_kernel_def hugepd_populate_kernel_def
      dest: installed_memblock_alloc split: if_splits prod.splits)

lemma installed_locate_pte:
  "locate_pte pl va psz new st = (ptep, s) \<Longrightarrow> installed (trace s) = installed (trace st)"
  by (auto simp: locate_pte_def Let_def
      dest: installed_early_pte_alloc_kernel installed_early_hugepd_alloc_kernel
      split: if_splits)

lemma installed_early_map:
  assumes "early_map_kernel_hugepage pl va pa prot psz new st = (e, s)"
  shows "installed (trace s) = installed (trace st) @
           (if e = 0
            then [\<lparr>cva = va, cpa = pa, cprot = prot,
                   csize = push_bit (mmu_psize_to_shift psz) 1\<rparr>]
            else [])"
  using assms
  by (auto simp: early_map_kernel_hugepage_def set_huge_pte_at_def emit_def installed_append
      EINVAL_def ENOMEM_def
      dest: installed_locate_pte split: if_splits prod.splits)

lemma size_512K: "push_bit (mmu_psize_to_shift MMU_PAGE_512K) (1 :: u32) = SZ_512K"
  by (simp add: SZ_512K_def)

lemma size_8M: "push_bit (mmu_psize_to_shift MMU_PAGE_8M) (1 :: u32) = SZ_8M"
  by (simp add: SZ_8M_def)

lemma stores_append: "stores (xs @ ys) = stores xs @ stores ys"
  by (induction xs rule: stores.induct) simp_all

lemma quiet_refl: "quiet st st"
  by (simp add: quiet_def)

lemma quiet_trans: "quiet a b \<Longrightarrow> quiet b c \<Longrightarrow> quiet a c"
  by (auto simp: quiet_def)

lemma quiet_memblock_alloc: "memblock_alloc sz al st = (b, s) \<Longrightarrow> quiet st s"
  by (auto simp: memblock_alloc_def emit_def quiet_def split: list.splits)

lemma quiet_early_pte_alloc_kernel:
  "early_pte_alloc_kernel pl pmdp va st = (ptep, s) \<Longrightarrow> quiet st s"
  by (auto simp: early_pte_alloc_kernel_def pmd_populate_kernel_def quiet_def
      dest!: quiet_memblock_alloc split: if_splits prod.splits)

lemma quiet_early_hugepd_alloc_kernel:
  "early_hugepd_alloc_kernel pl pmdp va st = (ptep, s) \<Longrightarrow> quiet st s"
  by (auto simp: early_hugepd_alloc_kernel_def hugepd_populate_kernel_def quiet_def
      dest!: quiet_memblock_alloc split: if_splits prod.splits)

lemma quiet_locate_pte: "locate_pte pl va psz new st = (ptep, s) \<Longrightarrow> quiet st s"
  by (auto simp: locate_pte_def Let_def quiet_refl
      dest: quiet_early_pte_alloc_kernel quiet_early_hugepd_alloc_kernel
      split: if_splits)

lemma quiet_set_huge_pte_at: "quiet st (set_huge_pte_at c ptep pteval st)"
  by (simp add: set_huge_pte_at_def emit_def quiet_def)

lemma quiet_early_map:
  "early_map_kernel_hugepage pl va pa prot psz new st = (e, s) \<Longrightarrow> quiet st s"
  by (auto simp: early_map_kernel_hugepage_def quiet_refl
      intro: quiet_trans [OF quiet_locate_pte quiet_set_huge_pte_at]
      dest: quiet_locate_pte split: if_splits prod.splits)

subsection \<open>The three loops\<close>

lemma loop_post_refl: "loop_post S p v st p v err st"
  unfolding loop_post_def by (auto intro: exI [of _ "[]"] quiet_refl)

lemma loop_post_step:
  assumes call: "early_map_kernel_hugepage pl v p prot psz new st = (e, s)"
    and sz: "push_bit (mmu_psize_to_shift psz) (1 :: u32) = S"
    and legal: "S = SZ_512K \<or> S = SZ_8M"
    and nowrap: "unat (p + S) = unat p + unat S"
    and rest: "loop_post S (p + S) (v + S) s p' v' err' st'"
    and fail: "e \<noteq> 0 \<Longrightarrow> err' \<noteq> 0"
  shows "loop_post S p v st p' v' err' st'"
proof -
  from rest obtain cs n where
    tr: "installed (trace st') = installed (trace s) @ cs" and
    each: "\<forall>c \<in> set cs. csize c = S \<and> cva c - cpa c = (v + S) - (p + S) \<and>
           (\<exists>k. unat (cpa c) = unat (p + S) + k * unat S) \<and>
           unat (cpa c) + unat S \<le> unat p'" and
    diff: "v' - p' = (v + S) - (p + S)" and
    adv: "unat p' = unat (p + S) + n * unat S" and
    til: "err' = 0 \<longrightarrow> tiles cpa (unat (p + S)) (unat p') cs" and
    q: "quiet s st'"
    unfolding loop_post_def by blast
  let ?c = "\<lparr>cva = v, cpa = p, cprot = prot, csize = S\<rparr>"
  let ?cs = "(if e = 0 then [?c] else []) @ cs"
  have "installed (trace st') = installed (trace st) @ ?cs"
    using installed_early_map [OF call] tr sz by simp
  moreover have "\<forall>c \<in> set ?cs. csize c = S \<and> cva c - cpa c = v - p \<and>
           (\<exists>k. unat (cpa c) = unat p + k * unat S) \<and> unat (cpa c) + unat S \<le> unat p'"
  proof
    fix c assume "c \<in> set ?cs"
    then consider "c = ?c" | "c \<in> set cs"
      by (auto split: if_splits)
    then show "csize c = S \<and> cva c - cpa c = v - p \<and>
           (\<exists>k. unat (cpa c) = unat p + k * unat S) \<and> unat (cpa c) + unat S \<le> unat p'"
    proof cases
      case 1
      then show ?thesis
        using adv nowrap by (auto intro: exI [of _ 0])
    next
      case 2
      with each have c: "csize c = S" "cva c - cpa c = v - p"
        "\<exists>k. unat (cpa c) = unat (p + S) + k * unat S" "unat (cpa c) + unat S \<le> unat p'"
        by simp_all
      then obtain k where "unat (cpa c) = unat (p + S) + k * unat S"
        by blast
      then have "unat (cpa c) = unat p + Suc k * unat S"
        using nowrap by simp
      with c show ?thesis
        by blast
    qed
  qed
  moreover have "v' - p' = v - p"
    using diff by simp
  moreover have "\<exists>n. unat p' = unat p + n * unat S"
    using adv nowrap by (auto intro: exI [of _ "Suc n"])
  moreover have "err' = 0 \<longrightarrow> tiles cpa (unat p) (unat p') ?cs"
    using til fail nowrap legal by auto
  moreover have "quiet st st'"
    using quiet_early_map [OF call] q by (rule quiet_trans)
  ultimately show ?thesis
    unfolding loop_post_def by blast
qed

lemma mapin_head_post:
  "mapin_head pl ptop prot new p v err st = (p', v', err', st') \<Longrightarrow>
   loop_post SZ_512K p v st p' v' err' st' \<and> (err \<noteq> 0 \<longrightarrow> err' \<noteq> 0) \<and>
   (err' = 0 \<longrightarrow> \<not> (p' < ALIGN p' SZ_8M \<and> p' < ptop))"
proof (induction pl ptop prot new p v err st rule: mapin_head.induct)
  case (1 pl ptop prot new p v err st)
  show ?case
  proof (cases "p < ALIGN p SZ_8M \<and> p < ptop \<and> err = 0")
    case False
    with "1.prems" have "p' = p" "v' = v" "err' = err" "st' = st"
      by (simp_all add: mapin_head.simps [of pl ptop prot new p v])
    with False show ?thesis
      by (auto simp: loop_post_refl)
  next
    case True
    obtain e s where call: "early_map_kernel_hugepage pl v p prot MMU_PAGE_512K new st = (e, s)"
      by (cases "early_map_kernel_hugepage pl v p prot MMU_PAGE_512K new st")
    with True "1.prems" have
      rest: "mapin_head pl ptop prot new (p + SZ_512K) (v + SZ_512K) e s = (p', v', err', st')"
      by (simp add: mapin_head.simps [of pl ptop prot new p v])
    from "1.IH" [OF True call [symmetric] rest]
    have ih: "loop_post SZ_512K (p + SZ_512K) (v + SZ_512K) s p' v' err' st'"
      "e \<noteq> 0 \<longrightarrow> err' \<noteq> 0"
      "err' = 0 \<longrightarrow> \<not> (p' < ALIGN p' SZ_8M \<and> p' < ptop)"
      by simp_all
    have "unat (p + SZ_512K) = unat p + unat SZ_512K"
      using True by (simp add: head_step unat_SZ_512K)
    with call ih have "loop_post SZ_512K p v st p' v' err' st'"
      by (intro loop_post_step [OF call size_512K]) auto
    with ih True show ?thesis
      by simp
  qed
qed

lemma mapin_huge_post:
  "mapin_huge pl ptop prot new p v err st = (p', v', err', st') \<Longrightarrow>
   loop_post SZ_8M p v st p' v' err' st' \<and> (err \<noteq> 0 \<longrightarrow> err' \<noteq> 0) \<and>
   (err' = 0 \<longrightarrow> \<not> (p' < ALIGN_DOWN ptop SZ_8M \<and> p' < ptop))"
proof (induction pl ptop prot new p v err st rule: mapin_huge.induct)
  case (1 pl ptop prot new p v err st)
  show ?case
  proof (cases "p < ALIGN_DOWN ptop SZ_8M \<and> p < ptop \<and> err = 0")
    case False
    with "1.prems" have "p' = p" "v' = v" "err' = err" "st' = st"
      by (simp_all add: mapin_huge.simps [of pl ptop prot new p v])
    with False show ?thesis
      by (auto simp: loop_post_refl)
  next
    case True
    obtain e s where call: "early_map_kernel_hugepage pl v p prot MMU_PAGE_8M new st = (e, s)"
      by (cases "early_map_kernel_hugepage pl v p prot MMU_PAGE_8M new st")
    with True "1.prems" have
      rest: "mapin_huge pl ptop prot new (p + SZ_8M) (v + SZ_8M) e s = (p', v', err', st')"
      by (simp add: mapin_huge.simps [of pl ptop prot new p v])
    from "1.IH" [OF True call [symmetric] rest]
    have ih: "loop_post SZ_8M (p + SZ_8M) (v + SZ_8M) s p' v' err' st'"
      "e \<noteq> 0 \<longrightarrow> err' \<noteq> 0"
      "err' = 0 \<longrightarrow> \<not> (p' < ALIGN_DOWN ptop SZ_8M \<and> p' < ptop)"
      by simp_all
    have "unat (p + SZ_8M) = unat p + unat SZ_8M"
      using True huge_step [of p ptop] by (simp add: unat_SZ_8M)
    with call ih have "loop_post SZ_8M p v st p' v' err' st'"
      by (intro loop_post_step [OF call size_8M]) auto
    with ih True show ?thesis
      by simp
  qed
qed

lemma mapin_tail_post:
  "mapin_tail pl ptop prot new p v err st = (p', v', err', st') \<Longrightarrow>
   loop_post SZ_512K p v st p' v' err' st' \<and> (err \<noteq> 0 \<longrightarrow> err' \<noteq> 0) \<and>
   (err' = 0 \<longrightarrow> \<not> (p' < ALIGN_DOWN ptop SZ_512K \<and> p' < ptop))"
proof (induction pl ptop prot new p v err st rule: mapin_tail.induct)
  case (1 pl ptop prot new p v err st)
  show ?case
  proof (cases "p < ALIGN_DOWN ptop SZ_512K \<and> p < ptop \<and> err = 0")
    case False
    with "1.prems" have "p' = p" "v' = v" "err' = err" "st' = st"
      by (simp_all add: mapin_tail.simps [of pl ptop prot new p v])
    with False show ?thesis
      by (auto simp: loop_post_refl)
  next
    case True
    obtain e s where call: "early_map_kernel_hugepage pl v p prot MMU_PAGE_512K new st = (e, s)"
      by (cases "early_map_kernel_hugepage pl v p prot MMU_PAGE_512K new st")
    with True "1.prems" have
      rest: "mapin_tail pl ptop prot new (p + SZ_512K) (v + SZ_512K) e s = (p', v', err', st')"
      by (simp add: mapin_tail.simps [of pl ptop prot new p v])
    from "1.IH" [OF True call [symmetric] rest]
    have ih: "loop_post SZ_512K (p + SZ_512K) (v + SZ_512K) s p' v' err' st'"
      "e \<noteq> 0 \<longrightarrow> err' \<noteq> 0"
      "err' = 0 \<longrightarrow> \<not> (p' < ALIGN_DOWN ptop SZ_512K \<and> p' < ptop)"
      by simp_all
    have "unat (p + SZ_512K) = unat p + unat SZ_512K"
      using True tail_step [of p ptop] by (simp add: unat_SZ_512K)
    with call ih have "loop_post SZ_512K p v st p' v' err' st'"
      by (intro loop_post_step [OF call size_512K]) auto
    with ih True show ?thesis
      by simp
  qed
qed

lemma aligned_succ:
  fixes a b m :: nat
  assumes "a mod m = 0" "b mod m = 0" "a < b"
  shows "a + m \<le> b"
proof -
  from assms obtain i j where "a = m * i" "b = m * j"
    by (auto simp: mod_eq_0_iff_dvd elim!: dvdE)
  with \<open>a < b\<close> have "i < j"
    by auto
  then have "m * (i + 1) \<le> m * j"
    by (intro mult_le_mono2) simp
  with \<open>a = m * i\<close> \<open>b = m * j\<close> show ?thesis
    by simp
qed

lemma round_down_aligned: "((t :: nat) - t mod m) mod m = 0"
  by (simp add: minus_mod_eq_mult_div)

lemma round_up_above:
  fixes a m :: nat
  assumes "0 < m" "a mod m \<noteq> 0"
  shows "a < (a + (m - 1)) - (a + (m - 1)) mod m"
proof -
  define q where "q = a div m"
  define r where "r = a mod m"
  have a: "a = m * q + r"
    by (simp add: q_def r_def)
  have r: "0 < r" "r < m"
    using assms by (simp_all add: r_def)
  have "(a + (m - 1)) div m = Suc q"
  proof (rule div_nat_eqI)
    show "m * Suc q \<le> a + (m - 1)"
      using r by (simp add: a)
    show "a + (m - 1) < m * Suc (Suc q)"
      using r by (simp add: a)
  qed
  then have "(a + (m - 1)) - (a + (m - 1)) mod m = m * Suc q"
    by (simp add: minus_mod_eq_mult_div)
  then show ?thesis
    using r by (simp add: a)
qed

lemma head_exit_aligned:
  assumes "\<not> p < ALIGN p SZ_8M" "p < ALIGN_DOWN ptop SZ_8M"
  shows "unat p mod 8388608 = 0"
proof (rule ccontr)
  assume odd: "unat p mod 8388608 \<noteq> 0"
  have "unat (ALIGN_DOWN ptop SZ_8M) \<le> 4286578688"
    unfolding unat_ALIGN_DOWN_8M by (rule round_down_8M_room) (rule unat_u32_bound)
  with assms(2) have "unat p < 4286578688"
    by (simp add: word_less_nat_alt)
  then have "unat (ALIGN p SZ_8M) = (unat p + 8388607) - (unat p + 8388607) mod 8388608"
    by (simp add: unat_ALIGN_8M)
  moreover have "unat p < (unat p + (8388608 - 1)) - (unat p + (8388608 - 1)) mod 8388608"
    using odd by (intro round_up_above) simp_all
  ultimately have "p < ALIGN p SZ_8M"
    by (simp add: word_less_nat_alt)
  with assms(1) show False
    by simp
qed

lemma mapin_head_bound:
  "mapin_head pl ptop prot new p v err st = (p', v', err', st') \<Longrightarrow>
   unat p mod 524288 = 0 \<Longrightarrow> unat ptop mod 524288 = 0 \<Longrightarrow> unat p \<le> unat ptop \<Longrightarrow>
   unat p' \<le> unat ptop"
proof (induction pl ptop prot new p v err st rule: mapin_head.induct)
  case (1 pl ptop prot new p v err st)
  show ?case
  proof (cases "p < ALIGN p SZ_8M \<and> p < ptop \<and> err = 0")
    case False
    with "1.prems" show ?thesis
      by (simp add: mapin_head.simps [of pl ptop prot new p v])
  next
    case True
    obtain e s where call: "early_map_kernel_hugepage pl v p prot MMU_PAGE_512K new st = (e, s)"
      by (cases "early_map_kernel_hugepage pl v p prot MMU_PAGE_512K new st")
    with True "1.prems" have
      rest: "mapin_head pl ptop prot new (p + SZ_512K) (v + SZ_512K) e s = (p', v', err', st')"
      by (simp add: mapin_head.simps [of pl ptop prot new p v])
    have step: "unat (p + SZ_512K) = unat p + 524288"
      using True by (simp add: head_step)
    have "unat p < unat ptop"
      using True by (simp add: word_less_nat_alt)
    with "1.prems" have "unat p + 524288 \<le> unat ptop"
      by (intro aligned_succ) simp_all
    with "1.IH" [OF True call [symmetric] rest] step "1.prems" show ?thesis
      by simp
  qed
qed

lemma mapin_huge_bound:
  "mapin_huge pl ptop prot new p v err st = (p', v', err', st') \<Longrightarrow>
   unat p mod 8388608 = 0 \<Longrightarrow> unat p \<le> unat ptop \<Longrightarrow> unat p' \<le> unat ptop"
proof (induction pl ptop prot new p v err st rule: mapin_huge.induct)
  case (1 pl ptop prot new p v err st)
  show ?case
  proof (cases "p < ALIGN_DOWN ptop SZ_8M \<and> p < ptop \<and> err = 0")
    case False
    with "1.prems" show ?thesis
      by (simp add: mapin_huge.simps [of pl ptop prot new p v])
  next
    case True
    obtain e s where call: "early_map_kernel_hugepage pl v p prot MMU_PAGE_8M new st = (e, s)"
      by (cases "early_map_kernel_hugepage pl v p prot MMU_PAGE_8M new st")
    with True "1.prems" have
      rest: "mapin_huge pl ptop prot new (p + SZ_8M) (v + SZ_8M) e s = (p', v', err', st')"
      by (simp add: mapin_huge.simps [of pl ptop prot new p v])
    have step: "unat (p + SZ_8M) = unat p + 8388608"
      using True huge_step [of p ptop] by simp
    have "unat p < unat ptop - unat ptop mod 8388608"
      using True by (simp add: word_less_nat_alt unat_ALIGN_DOWN_8M)
    with "1.prems" have "unat p + 8388608 \<le> unat ptop - unat ptop mod 8388608"
      by (intro aligned_succ round_down_aligned) simp_all
    then have "unat p + 8388608 \<le> unat ptop"
      by simp
    with "1.IH" [OF True call [symmetric] rest] step "1.prems" show ?thesis
      by simp
  qed
qed

lemma mapin_tail_bound:
  "mapin_tail pl ptop prot new p v err st = (p', v', err', st') \<Longrightarrow>
   unat p mod 524288 = 0 \<Longrightarrow> unat p \<le> unat ptop \<Longrightarrow> unat p' \<le> unat ptop"
proof (induction pl ptop prot new p v err st rule: mapin_tail.induct)
  case (1 pl ptop prot new p v err st)
  show ?case
  proof (cases "p < ALIGN_DOWN ptop SZ_512K \<and> p < ptop \<and> err = 0")
    case False
    with "1.prems" show ?thesis
      by (simp add: mapin_tail.simps [of pl ptop prot new p v])
  next
    case True
    obtain e s where call: "early_map_kernel_hugepage pl v p prot MMU_PAGE_512K new st = (e, s)"
      by (cases "early_map_kernel_hugepage pl v p prot MMU_PAGE_512K new st")
    with True "1.prems" have
      rest: "mapin_tail pl ptop prot new (p + SZ_512K) (v + SZ_512K) e s = (p', v', err', st')"
      by (simp add: mapin_tail.simps [of pl ptop prot new p v])
    have step: "unat (p + SZ_512K) = unat p + 524288"
      using True tail_step [of p ptop] by simp
    have "unat p < unat ptop - unat ptop mod 524288"
      using True by (simp add: word_less_nat_alt unat_ALIGN_DOWN_512K)
    with "1.prems" have "unat p + 524288 \<le> unat ptop - unat ptop mod 524288"
      by (intro aligned_succ round_down_aligned) simp_all
    then have "unat p + 524288 \<le> unat ptop"
      by simp
    with "1.IH" [OF True call [symmetric] rest] step "1.prems" show ?thesis
      by simp
  qed
qed

lemma mapin_huge_idle:
  "\<not> (p < ALIGN_DOWN ptop SZ_8M \<and> p < ptop \<and> err = 0) \<Longrightarrow>
   mapin_huge pl ptop prot new p v err st = (p, v, err, st)"
  by (subst mapin_huge.simps) auto

lemma mapin_head_idle:
  "\<not> (p < ALIGN p SZ_8M \<and> p < ptop \<and> err = 0) \<Longrightarrow>
   mapin_head pl ptop prot new p v err st = (p, v, err, st)"
  by (subst mapin_head.simps) auto

lemma mod_512K_add_8M: "(a + n * 8388608) mod 524288 = a mod (524288 :: nat)"
proof -
  have "a + n * 8388608 = a + (n * 16) * 524288"
    by simp
  then show ?thesis
    by (simp only: mod_mult_self1)
qed

lemma tiles_le: "tiles f a b cs \<Longrightarrow> a \<le> b"
proof (induction cs arbitrary: a)
  case Nil
  then show ?case by simp
next
  case (Cons c cs)
  then have "a + unat (csize c) \<le> b"
    by simp
  then show ?case by simp
qed

lemma new_chunks_eq:
  "installed (trace st') = installed (trace st) @ cs \<Longrightarrow> new_chunks st st' = cs"
  by (simp add: new_chunks_def)

subsection \<open>The range mapper\<close>

lemma mmu_mapin_ram_chunk_post:
  assumes run: "mmu_mapin_ram_chunk pl offset ptop prot new st = (err, st')"
  shows "\<exists>cs p3 s3.
      installed (trace st') = installed (trace st) @ cs \<and>
      (\<forall>c \<in> set cs.
         (csize c = SZ_512K \<or> csize c = SZ_8M) \<and> cva c = PAGE_OFFSET pl + cpa c \<and>
         (csize c = SZ_8M \<longrightarrow> unat (cpa c) mod 8388608 = 0) \<and>
         unat offset \<le> unat (cpa c) \<and>
         unat (cpa c) + unat (csize c) \<le> unat p3) \<and>
      (err = 0 \<longrightarrow> tiles cpa (unat offset) (unat p3) cs) \<and>
      (unat offset mod 524288 = 0 \<and> unat ptop mod 524288 = 0 \<and> unat offset \<le> unat ptop \<longrightarrow>
         unat p3 \<le> unat ptop \<and> (err = 0 \<longrightarrow> p3 = ptop)) \<and>
      (offset = 0 \<longrightarrow> unat p3 \<le> unat ptop) \<and>
      quiet st s3 \<and>
      st' = (if new then s3
             else flush_tlb_kernel_range (PAGE_OFFSET pl + (PAGE_OFFSET pl + p3))
                    (PAGE_OFFSET pl + ptop) s3)"
proof -
  let ?PO = "PAGE_OFFSET pl"
  obtain p1 v1 e1 s1 where
    h: "mapin_head pl ptop prot new offset (?PO + offset) 0 st = (p1, v1, e1, s1)"
    by (cases "mapin_head pl ptop prot new offset (?PO + offset) 0 st")
  obtain p2 v2 e2 s2 where g: "mapin_huge pl ptop prot new p1 v1 e1 s1 = (p2, v2, e2, s2)"
    by (cases "mapin_huge pl ptop prot new p1 v1 e1 s1")
  obtain p3 v3 e3 s3 where t: "mapin_tail pl ptop prot new p2 v2 e2 s2 = (p3, v3, e3, s3)"
    by (cases "mapin_tail pl ptop prot new p2 v2 e2 s2")
  from run have err: "err = e3"
    and st': "st' = (if new then s3
                     else flush_tlb_kernel_range (?PO + v3) (?PO + ptop) s3)"
    by (auto simp: mmu_mapin_ram_chunk_def h g t)
  note H = mapin_head_post [OF h] and G = mapin_huge_post [OF g] and T = mapin_tail_post [OF t]
  from H obtain cs1 n1 where
    tr1: "installed (trace s1) = installed (trace st) @ cs1" and
    each1: "\<forall>c \<in> set cs1. csize c = SZ_512K \<and> cva c - cpa c = ?PO + offset - offset \<and>
              (\<exists>k. unat (cpa c) = unat offset + k * unat SZ_512K) \<and>
              unat (cpa c) + unat SZ_512K \<le> unat p1" and
    d1: "v1 - p1 = ?PO + offset - offset" and
    a1: "unat p1 = unat offset + n1 * unat SZ_512K" and
    til1: "e1 = 0 \<longrightarrow> tiles cpa (unat offset) (unat p1) cs1" and
    q1: "quiet st s1" and
    x1: "e1 = 0 \<longrightarrow> \<not> (p1 < ALIGN p1 SZ_8M \<and> p1 < ptop)"
    unfolding loop_post_def by blast
  from G obtain cs2 n2 where
    tr2: "installed (trace s2) = installed (trace s1) @ cs2" and
    each2: "\<forall>c \<in> set cs2. csize c = SZ_8M \<and> cva c - cpa c = v1 - p1 \<and>
              (\<exists>k. unat (cpa c) = unat p1 + k * unat SZ_8M) \<and>
              unat (cpa c) + unat SZ_8M \<le> unat p2" and
    d2: "v2 - p2 = v1 - p1" and
    a2: "unat p2 = unat p1 + n2 * unat SZ_8M" and
    til2: "e2 = 0 \<longrightarrow> tiles cpa (unat p1) (unat p2) cs2" and
    q2: "quiet s1 s2" and
    c2: "e1 \<noteq> 0 \<longrightarrow> e2 \<noteq> 0"
    unfolding loop_post_def by blast
  from T obtain cs3 n3 where
    tr3: "installed (trace s3) = installed (trace s2) @ cs3" and
    each3: "\<forall>c \<in> set cs3. csize c = SZ_512K \<and> cva c - cpa c = v2 - p2 \<and>
              (\<exists>k. unat (cpa c) = unat p2 + k * unat SZ_512K) \<and>
              unat (cpa c) + unat SZ_512K \<le> unat p3" and
    d3: "v3 - p3 = v2 - p2" and
    a3: "unat p3 = unat p2 + n3 * unat SZ_512K" and
    til3: "e3 = 0 \<longrightarrow> tiles cpa (unat p2) (unat p3) cs3" and
    q3: "quiet s2 s3" and
    c3: "e2 \<noteq> 0 \<longrightarrow> e3 \<noteq> 0" and
    x3: "e3 = 0 \<longrightarrow> \<not> (p3 < ALIGN_DOWN ptop SZ_512K \<and> p3 < ptop)"
    unfolding loop_post_def by blast
  have v3: "v3 = ?PO + p3"
    using d1 d2 d3 by (simp add: algebra_simps)
  have idle_or_aligned: "cs2 = [] \<and> p2 = p1 \<or> unat p1 mod 8388608 = 0"
  proof (cases "p1 < ALIGN_DOWN ptop SZ_8M \<and> p1 < ptop \<and> e1 = 0")
    case False
    then have "mapin_huge pl ptop prot new p1 v1 e1 s1 = (p1, v1, e1, s1)"
      by (rule mapin_huge_idle)
    with g tr2 show ?thesis
      by simp
  next
    case True
    with x1 have "\<not> p1 < ALIGN p1 SZ_8M"
      by simp
    with True have "unat p1 mod 8388608 = 0"
      by (intro head_exit_aligned [of p1 ptop]) simp_all
    then show ?thesis ..
  qed
  have le01: "unat offset \<le> unat p1" and le12: "unat p1 \<le> unat p2"
    and le23: "unat p2 \<le> unat p3"
    using a1 a2 a3 by simp_all
  have large: "\<forall>c \<in> set cs2. unat (cpa c) mod 8388608 = 0"
  proof
    fix c assume c: "c \<in> set cs2"
    with idle_or_aligned have al: "unat p1 mod 8388608 = 0"
      by auto
    from c each2 obtain k where "unat (cpa c) = unat p1 + k * unat SZ_8M"
      by blast
    with al show "unat (cpa c) mod 8388608 = 0"
      by (simp add: unat_SZ_8M)
  qed
  let ?cs = "cs1 @ cs2 @ cs3"
  have "installed (trace st') = installed (trace s3)"
    by (simp add: st' flush_tlb_kernel_range_def emit_def installed_append)
  then have tr: "installed (trace st') = installed (trace st) @ ?cs"
    using tr1 tr2 tr3 by simp
  have each: "\<forall>c \<in> set ?cs.
         (csize c = SZ_512K \<or> csize c = SZ_8M) \<and> cva c = ?PO + cpa c \<and>
         (csize c = SZ_8M \<longrightarrow> unat (cpa c) mod 8388608 = 0) \<and>
         unat offset \<le> unat (cpa c) \<and>
         unat (cpa c) + unat (csize c) \<le> unat p3"
  proof
    fix c assume "c \<in> set ?cs"
    then consider "c \<in> set cs1" | "c \<in> set cs2" | "c \<in> set cs3"
      by auto
    then show "(csize c = SZ_512K \<or> csize c = SZ_8M) \<and> cva c = ?PO + cpa c \<and>
         (csize c = SZ_8M \<longrightarrow> unat (cpa c) mod 8388608 = 0) \<and>
         unat offset \<le> unat (cpa c) \<and>
         unat (cpa c) + unat (csize c) \<le> unat p3"
    proof cases
      case 1
      with each1 have "csize c = SZ_512K" "cva c - cpa c = ?PO"
        "unat (cpa c) + unat SZ_512K \<le> unat p1"
        by simp_all
      moreover from this(2) have "cva c = ?PO + cpa c"
        by (simp add: algebra_simps)
      moreover from 1 each1 have "unat offset \<le> unat (cpa c)"
        by auto
      ultimately show ?thesis
        using le12 le23 by (simp add: SZ_512K_def SZ_8M_def)
    next
      case 2
      with each2 d1 have "csize c = SZ_8M" "cva c - cpa c = ?PO"
        "unat (cpa c) + unat SZ_8M \<le> unat p2"
        by simp_all
      moreover from this(2) have "cva c = ?PO + cpa c"
        by (simp add: algebra_simps)
      moreover from 2 each2 le01 have "unat offset \<le> unat (cpa c)"
        by auto
      ultimately show ?thesis
        using le23 large 2 by simp
    next
      case 3
      with each3 d1 d2 have "csize c = SZ_512K" "cva c - cpa c = ?PO"
        "unat (cpa c) + unat SZ_512K \<le> unat p3"
        by simp_all
      moreover from this(2) have "cva c = ?PO + cpa c"
        by (simp add: algebra_simps)
      moreover from 3 each3 le01 le12 have "unat offset \<le> unat (cpa c)"
        by auto
      ultimately show ?thesis
        by (simp add: SZ_512K_def SZ_8M_def)
    qed
  qed
  have til: "err = 0 \<longrightarrow> tiles cpa (unat offset) (unat p3) ?cs"
  proof
    assume "err = 0"
    with err c2 c3 have "e1 = 0" "e2 = 0" "e3 = 0"
      by auto
    with til1 til2 til3 show "tiles cpa (unat offset) (unat p3) ?cs"
      by (auto intro: tiles_append)
  qed
  have bound: "unat p3 \<le> unat ptop \<and> (err = 0 \<longrightarrow> p3 = ptop)"
    if al: "unat offset mod 524288 = 0" "unat ptop mod 524288 = 0" "unat offset \<le> unat ptop"
  proof -
    have b1: "unat p1 \<le> unat ptop"
      using h al by (rule mapin_head_bound)
    have m1: "unat p1 mod 524288 = 0"
      using al(1) a1 by (simp add: unat_SZ_512K)
    have b2: "unat p2 \<le> unat ptop"
      using idle_or_aligned
    proof
      assume "cs2 = [] \<and> p2 = p1"
      with b1 show ?thesis by simp
    next
      assume "unat p1 mod 8388608 = 0"
      with g show ?thesis
        using b1 by (rule mapin_huge_bound)
    qed
    have m2: "unat p2 mod 524288 = 0"
      using m1 a2 by (simp add: unat_SZ_8M mod_512K_add_8M)
    have b3: "unat p3 \<le> unat ptop"
      using t m2 b2 by (rule mapin_tail_bound)
    moreover have "p3 = ptop" if "err = 0"
    proof -
      from that err x3 have "\<not> (p3 < ALIGN_DOWN ptop SZ_512K \<and> p3 < ptop)"
        by simp
      moreover have "unat (ALIGN_DOWN ptop SZ_512K) = unat ptop"
        using al(2) by (simp add: unat_ALIGN_DOWN_512K)
      ultimately have "unat ptop \<le> unat p3"
        by (auto simp: word_less_nat_alt)
      with b3 show ?thesis
        by (simp add: word_unat_eq_iff)
    qed
    ultimately show ?thesis
      by simp
  qed
  have bound0: "unat p3 \<le> unat ptop" if "offset = 0"
  proof -
    have "ALIGN 0 SZ_8M = 0"
      by (simp add: ALIGN_def SZ_8M_def)
    with that have "mapin_head pl ptop prot new offset (?PO + offset) 0 st =
        (offset, ?PO + offset, 0, st)"
      by (intro mapin_head_idle) simp
    with h that have "p1 = 0"
      by simp
    with g have "unat p2 \<le> unat ptop"
      by (intro mapin_huge_bound [OF g]) simp_all
    moreover have "unat p2 mod 524288 = 0"
      using a2 \<open>p1 = 0\<close> mod_512K_add_8M [of 0 n2] by (simp add: unat_SZ_8M)
    ultimately show ?thesis
      using t by (intro mapin_tail_bound [OF t])
  qed
  have q: "quiet st s3"
    using q1 q2 q3 by (blast intro: quiet_trans)
  have bound': "unat offset mod 524288 = 0 \<and> unat ptop mod 524288 = 0 \<and>
      unat offset \<le> unat ptop \<longrightarrow> unat p3 \<le> unat ptop \<and> (err = 0 \<longrightarrow> p3 = ptop)"
  proof
    assume "unat offset mod 524288 = 0 \<and> unat ptop mod 524288 = 0 \<and>
      unat offset \<le> unat ptop"
    then have "unat offset mod 524288 = 0" "unat ptop mod 524288 = 0"
      "unat offset \<le> unat ptop"
      by simp_all
    then show "unat p3 \<le> unat ptop \<and> (err = 0 \<longrightarrow> p3 = ptop)"
      by (rule bound)
  qed
  have bound0': "offset = 0 \<longrightarrow> unat p3 \<le> unat ptop"
    by (rule impI) (rule bound0)
  have st'': "st' = (if new then s3
             else flush_tlb_kernel_range (?PO + (?PO + p3)) (?PO + ptop) s3)"
    using st' v3 by simp
  show ?thesis
    by (intro exI [of _ ?cs] exI [of _ p3] exI [of _ s3] conjI)
      (rule tr each til bound' bound0' q st'')+
qed

subsection \<open>The flush of the range mapper\<close>

lemma reprotect_flush_general:
  assumes "IS_ALIGNED offset SZ_512K" and "IS_ALIGNED ptop SZ_512K" and "offset \<le> ptop"
    and "mmu_mapin_ram_chunk pl offset ptop prot False st = (0, st')"
  shows "\<exists>evs. trace st' = trace st @ evs @
           [FlushTlbKernelRange (PAGE_OFFSET pl + (PAGE_OFFSET pl + ptop)) (PAGE_OFFSET pl + ptop)] \<and>
           list_all mapping_event evs"
proof -
  from mmu_mapin_ram_chunk_post [OF assms(4)] obtain p3 s3 where
    fin: "unat offset mod 524288 = 0 \<and> unat ptop mod 524288 = 0 \<and> unat offset \<le> unat ptop \<longrightarrow>
          p3 = ptop" and
    q: "quiet st s3" and
    st': "st' = flush_tlb_kernel_range (PAGE_OFFSET pl + (PAGE_OFFSET pl + p3))
                  (PAGE_OFFSET pl + ptop) s3"
    by auto
  from assms(1-3) fin have "p3 = ptop"
    by (simp add: IS_ALIGNED_512K word_le_nat_alt)
  with q st' show ?thesis
    by (auto simp: quiet_def flush_tlb_kernel_range_def emit_def)
qed

subsection \<open>The window limiter\<close>

lemma ucast_up_id: "(ucast (ucast (a :: u32) :: 64 word) :: u32) = a"
  by (rule ucast_up_ucast_id) (simp add: is_up)

lemma ucast_up_le: "(ucast (a :: u32) :: 64 word) \<le> ucast (b :: u32) \<longleftrightarrow> a \<le> b"
  by (simp add: word_le_nat_alt unsigned_ucast_eq take_bit_nat_eq_self unat_u32_bound
      order_less_trans [OF unat_u32_bound])

lemma min_u64_u32:
  "(ucast (min (ucast (a :: u32) :: 64 word) (ucast (b :: u32))) :: u32) = min a b"
  by (simp add: min_def ucast_up_le ucast_up_id)

subsection \<open>The page installer\<close>



subsection \<open>Tilings\<close>

lemma tiles_inside:
  "tiles f a b cs \<Longrightarrow> c \<in> set cs \<Longrightarrow> a \<le> unat (f c) \<and> unat (f c) + unat (csize c) \<le> b"
proof (induction cs arbitrary: a)
  case Nil
  then show ?case by simp
next
  case (Cons d cs)
  from Cons.prems(1) have rest: "tiles f (a + unat (csize d)) b cs" and at: "unat (f d) = a"
    by simp_all
  show ?case
  proof (cases "c = d")
    case True
    with at tiles_le [OF rest] show ?thesis by simp
  next
    case False
    with Cons.prems(2) have "c \<in> set cs" by simp
    from Cons.IH [OF rest this] show ?thesis by simp
  qed
qed

lemma tiles_cover:
  "tiles f a b cs \<Longrightarrow>
   (\<Union>c \<in> set cs. {unat (f c) ..< unat (f c) + unat (csize c)}) = {a ..< b}"
proof (induction cs arbitrary: a)
  case Nil
  then show ?case by simp
next
  case (Cons d cs)
  from Cons.prems have rest: "tiles f (a + unat (csize d)) b cs" and at: "unat (f d) = a"
    by simp_all
  have "a + unat (csize d) \<le> b"
    using rest by (rule tiles_le)
  then have "{a ..< a + unat (csize d)} \<union> {a + unat (csize d) ..< b} = {a ..< b}"
    by auto
  with Cons.IH [OF rest] at show ?case
    by simp
qed

lemma tiles_ordered:
  "tiles f a b cs \<Longrightarrow>
   sorted_wrt (\<lambda>c d. unat (f c) + unat (csize c) \<le> unat (f d)) cs"
proof (induction cs arbitrary: a)
  case Nil
  then show ?case by simp
next
  case (Cons d cs)
  from Cons.prems have rest: "tiles f (a + unat (csize d)) b cs" and at: "unat (f d) = a"
    by simp_all
  have "\<forall>c \<in> set cs. unat (f d) + unat (csize d) \<le> unat (f c)"
    using tiles_inside [OF rest] at by simp
  with Cons.IH [OF rest] show ?case
    by simp
qed

lemma tiles_uniform:
  "tiles f a b cs \<Longrightarrow> \<forall>c \<in> set cs. csize c = S \<Longrightarrow>
   b = a + length cs * unat S \<and> (\<forall>i < length cs. unat (f (cs ! i)) = a + i * unat S)"
proof (induction cs arbitrary: a)
  case Nil
  then show ?case by simp
next
  case (Cons d cs)
  from Cons.prems have rest: "tiles f (a + unat S) b cs" and at: "unat (f d) = a"
    and all: "\<forall>c \<in> set cs. csize c = S"
    by simp_all
  from Cons.IH [OF rest all] have
    len: "b = a + unat S + length cs * unat S" and
    pos: "\<forall>i < length cs. unat (f (cs ! i)) = a + unat S + i * unat S"
    by simp_all
  have "unat (f ((d # cs) ! i)) = a + i * unat S" if "i < length (d # cs)" for i
  proof (cases i)
    case 0
    with at show ?thesis by simp
  next
    case (Suc j)
    with that pos show ?thesis by simp
  qed
  with len show ?case
    by simp
qed

lemma tiles_shift:
  assumes "tiles cpa a b cs" and "\<forall>c \<in> set cs. cva c = base + cpa c"
    and "unat base + b \<le> 2 ^ 32"
  shows "tiles cva (unat base + a) (unat base + b) cs"
  using assms
proof (induction cs arbitrary: a)
  case Nil
  then show ?case by simp
next
  case (Cons d cs)
  from Cons.prems(1) have rest: "tiles cpa (a + unat (csize d)) b cs" and at: "unat (cpa d) = a"
    and legal: "csize d = SZ_512K \<or> csize d = SZ_8M"
    by simp_all
  have "a + unat (csize d) \<le> b"
    using rest by (rule tiles_le)
  moreover have "0 < unat (csize d)"
    using legal by (auto simp: unat_SZ_512K unat_SZ_8M)
  ultimately have "unat base + unat (cpa d) < 2 ^ 32"
    using Cons.prems(3) at by simp
  then have "unat (base + cpa d) = unat base + a"
    using at by (simp add: unat_add_nowrap)
  moreover have "tiles cva (unat base + (a + unat (csize d))) (unat base + b) cs"
    using rest Cons.prems(2,3) by (intro Cons.IH) simp_all
  ultimately show ?case
    using Cons.prems(2) legal by (simp add: add.assoc)
qed

lemma IS_ALIGNED_8M_add:
  assumes "IS_ALIGNED a SZ_8M" "IS_ALIGNED b SZ_8M"
  shows "IS_ALIGNED (a + b) SZ_8M"
proof -
  have "(8388608 :: nat) dvd 4294967296"
    by simp
  then have "(unat a + unat b) mod 4294967296 mod 8388608 = (unat a + unat b) mod 8388608"
    by (rule mod_mod_cancel)
  also have "\<dots> = 0"
    using assms by (simp add: IS_ALIGNED_8M mod_eq_0_iff_dvd)
  finally show ?thesis
    by (simp add: IS_ALIGNED_8M unat_word_ariths)
qed

lemma IS_ALIGNED_8M_self: "IS_ALIGNED SZ_8M SZ_8M"
  by (simp add: IS_ALIGNED_8M unat_SZ_8M)

subsection \<open>The boot mapper\<close>

lemma stores_mapping_events: "list_all mapping_event evs \<Longrightarrow> stores evs = []"
  by (induction evs rule: stores.induct) simp_all

lemma nostore_refl: "nostore st st"
  by (simp add: nostore_def)

lemma nostore_trans: "nostore a b \<Longrightarrow> nostore b c \<Longrightarrow> nostore a c"
  by (auto simp: nostore_def stores_append)

lemma quiet_nostore: "quiet st st' \<Longrightarrow> nostore st st'"
  by (auto simp: quiet_def nostore_def stores_mapping_events)

lemma nostore_chunk:
  "mmu_mapin_ram_chunk pl offset ptop prot True st = (err, st') \<Longrightarrow> nostore st st'"
  using mmu_mapin_ram_chunk_post [of pl offset ptop prot True st err st']
  by (auto intro: quiet_nostore)

lemma nostore_immr: "nostore st (mmu_mapin_immr pl st)"
proof (cases "immr_is_mapped st")
  case True
  then show ?thesis
    by (simp add: mmu_mapin_immr_def nostore_refl)
next
  case False
  let ?s = "st\<lparr>immr_is_mapped := True\<rparr>"
  let ?r = "early_map_kernel_hugepage pl (VIRT_IMMR_BASE pl) (PHYS_IMMR_BASE pl)
              (PAGE_KERNEL_NCG pl) MMU_PAGE_512K True ?s"
  have "?r = (fst ?r, snd ?r)"
    by simp
  then have "quiet ?s (snd ?r)"
    by (rule quiet_early_map)
  then have "nostore ?s (snd ?r)"
    by (rule quiet_nostore)
  moreover have "nostore st ?s"
    by (simp add: nostore_def)
  ultimately have "nostore st (snd ?r)"
    by (blast intro: nostore_trans)
  with False show ?thesis
    by (simp add: mmu_mapin_immr_def)
qed

lemma nostore_limit: "nostore st (memblock_set_current_limit lim st)"
  by (simp add: nostore_def memblock_set_current_limit_def emit_def)

lemma installed_immr:
  "\<exists>cs. installed (trace (mmu_mapin_immr pl st)) = installed (trace st) @ cs \<and>
     (\<forall>c \<in> set cs. cva c = VIRT_IMMR_BASE pl \<and> cpa c = PHYS_IMMR_BASE pl)"
proof (cases "immr_is_mapped st")
  case True
  then show ?thesis
    by (simp add: mmu_mapin_immr_def)
next
  case False
  let ?s = "st\<lparr>immr_is_mapped := True\<rparr>"
  let ?r = "early_map_kernel_hugepage pl (VIRT_IMMR_BASE pl) (PHYS_IMMR_BASE pl)
              (PAGE_KERNEL_NCG pl) MMU_PAGE_512K True ?s"
  have "?r = (fst ?r, snd ?r)"
    by simp
  from installed_early_map [OF this] False show ?thesis
    by (simp add: mmu_mapin_immr_def)
qed

subsection \<open>Runs on the example platform\<close>

lemma mapped_top: "block_mapped_ram mapped_state = 0x1800000"
  by (simp add: mapped_state_def)

lemma mapped_wf: "windows_wf mpc8xx mapped_state"
  by (simp add: windows_wf_def mapped_top IMMR_SIZE_def mpc8xx_def)

lemma boot_run: "fst (mmu_mapin_ram_chunk mpc8xx 0 0x880000 (PAGE_KERNEL mpc8xx) True boot_state) = 0"
  by code_simp

lemma boot_chunks:
  "new_chunks boot_state
     (snd (mmu_mapin_ram_chunk mpc8xx 0 0x880000 (PAGE_KERNEL mpc8xx) True boot_state)) =
   [\<lparr>cva = 0xC0000000, cpa = 0, cprot = 0x1F1, csize = 0x800000\<rparr>,
    \<lparr>cva = 0xC0800000, cpa = 0x800000, cprot = 0x1F1, csize = 0x80000\<rparr>]"
  by code_simp

lemma head_run:
  "fst (mmu_mapin_ram_chunk mpc8xx 0x80000 0x800000 (PAGE_KERNEL mpc8xx) True boot_state) = 0"
  by code_simp

lemma debug_chunks:
  "new_chunks boot_state (snd (mmu_mapin_ram mpc8xx_debug 0 0x1800000 boot_state)) =
   [\<lparr>cva = 0xFFF00000, cpa = 0xFF000000, cprot = 0x1F3, csize = 0x80000\<rparr>,
    \<lparr>cva = 0xC0000000, cpa = 0, cprot = 0x1D1, csize = 0x800000\<rparr>,
    \<lparr>cva = 0xC0800000, cpa = 0x800000, cprot = 0x1D1, csize = 0x80000\<rparr>,
    \<lparr>cva = 0xC0880000, cpa = 0x880000, cprot = 0x1D1, csize = 0x80000\<rparr>]"
  by code_simp

section \<open>The claims\<close>

text \<open>
  C1.  For 512 KB-aligned \<open>offset < top\<close>, when \<open>mmu_mapin_ram_chunk\<close> returns 0 (no
  install has failed), the chunks it has installed, in the order of installation, tile the
  physical range from \<open>offset\<close> to \<open>top\<close>: the first starts at \<open>offset\<close>, each one
  starts where the one before ends, the last ends at \<open>top\<close>, and each is 512 KB or 8 MB.
  Every chunk is mapped at \<open>PAGE_OFFSET\<close> plus its physical address, so when
  \<open>PAGE_OFFSET + top\<close> is within the 32-bit address space the virtual starts tile
  \<open>[PAGE_OFFSET + offset, PAGE_OFFSET + top)\<close> in the same way: every chunk ends at or
  before the start of every later one, and the union of the chunks is that range.
\<close>

theorem mmu_mapin_ram_chunk_tiles:
  assumes "IS_ALIGNED offset SZ_512K" and "IS_ALIGNED ptop SZ_512K" and "offset < ptop"
    and "mmu_mapin_ram_chunk pl offset ptop prot new st = (0, st')"
  shows "tiles cpa (unat offset) (unat ptop) (new_chunks st st') \<and>
         (\<forall>c \<in> set (new_chunks st st'). cva c = PAGE_OFFSET pl + cpa c) \<and>
         (unat (PAGE_OFFSET pl) + unat ptop \<le> 2 ^ 32 \<longrightarrow>
            tiles cva (unat (PAGE_OFFSET pl) + unat offset) (unat (PAGE_OFFSET pl) + unat ptop)
              (new_chunks st st') \<and>
            sorted_wrt (\<lambda>c d. unat (cva c) + unat (csize c) \<le> unat (cva d))
              (new_chunks st st') \<and>
            (\<Union>c \<in> set (new_chunks st st'). {unat (cva c) ..< unat (cva c) + unat (csize c)}) =
              {unat (PAGE_OFFSET pl) + unat offset ..< unat (PAGE_OFFSET pl) + unat ptop})"
proof -
  from mmu_mapin_ram_chunk_post [OF assms(4)] obtain cs p3 where
    tr: "installed (trace st') = installed (trace st) @ cs" and
    each: "\<forall>c \<in> set cs. cva c = PAGE_OFFSET pl + cpa c" and
    til: "tiles cpa (unat offset) (unat p3) cs" and
    fin: "unat offset mod 524288 = 0 \<and> unat ptop mod 524288 = 0 \<and> unat offset \<le> unat ptop \<longrightarrow>
          p3 = ptop"
    by auto
  have "unat offset \<le> unat ptop"
    using assms(3) by (simp add: word_less_nat_alt)
  with assms(1,2) fin have "p3 = ptop"
    by (simp add: IS_ALIGNED_512K)
  with til have phys: "tiles cpa (unat offset) (unat ptop) cs"
    by simp
  have virt: "tiles cva (unat (PAGE_OFFSET pl) + unat offset) (unat (PAGE_OFFSET pl) + unat ptop) cs"
    if "unat (PAGE_OFFSET pl) + unat ptop \<le> 2 ^ 32"
    using phys each that by (rule tiles_shift)
  have "new_chunks st st' = cs"
    using tr by (rule new_chunks_eq)
  with phys each virt tiles_cover [OF virt] tiles_ordered [OF virt] show ?thesis
    by simp
qed

theorem mmu_mapin_ram_chunk_tiles_witness:
  "IS_ALIGNED (0 :: u32) SZ_512K \<and> IS_ALIGNED (0x880000 :: u32) SZ_512K \<and>
   (0 :: u32) < 0x880000 \<and>
   fst (mmu_mapin_ram_chunk mpc8xx 0 0x880000 (PAGE_KERNEL mpc8xx) True boot_state) = 0 \<and>
   unat (PAGE_OFFSET mpc8xx) + unat (0x880000 :: u32) \<le> 2 ^ 32 \<and>
   tiles cpa 0 0x880000
     (new_chunks boot_state
        (snd (mmu_mapin_ram_chunk mpc8xx 0 0x880000 (PAGE_KERNEL mpc8xx) True boot_state))) \<and>
   tiles cva 0xC0000000 0xC0880000
     (new_chunks boot_state
        (snd (mmu_mapin_ram_chunk mpc8xx 0 0x880000 (PAGE_KERNEL mpc8xx) True boot_state)))"
proof -
  let ?r = "mmu_mapin_ram_chunk mpc8xx 0 0x880000 (PAGE_KERNEL mpc8xx) True boot_state"
  have a: "IS_ALIGNED (0 :: u32) SZ_512K" "IS_ALIGNED (0x880000 :: u32) SZ_512K"
    by (simp_all add: IS_ALIGNED_def SZ_512K_def)
  have lt: "(0 :: u32) < 0x880000"
    by simp
  have run: "?r = (0, snd ?r)"
    using boot_run by (simp add: prod_eq_iff)
  have room: "unat (PAGE_OFFSET mpc8xx) + unat (0x880000 :: u32) \<le> 2 ^ 32"
    by (simp add: mpc8xx_def)
  from mmu_mapin_ram_chunk_tiles [OF a lt run] room
  have "tiles cpa (unat (0 :: u32)) (unat (0x880000 :: u32)) (new_chunks boot_state (snd ?r))"
    "tiles cva (unat (PAGE_OFFSET mpc8xx) + unat (0 :: u32))
       (unat (PAGE_OFFSET mpc8xx) + unat (0x880000 :: u32)) (new_chunks boot_state (snd ?r))"
    by blast+
  then show ?thesis
    using a lt boot_run room by (simp add: mpc8xx_def)
qed

text \<open>
  C2.  The flush of a call in re-protect mode does not cover the range that was
  re-protected.  The call passes \<open>PAGE_OFFSET + v\<close> and \<open>PAGE_OFFSET + top\<close>, where
  \<open>v\<close> already holds \<open>PAGE_OFFSET\<close> and has been advanced to the end of the range by
  the loops.  On the example platform, re-protecting \<open>[0, 512 KB)\<close> after it has been
  mapped returns 0, rewrites the one entry and flushes \<open>[0x80080000, 0xC0080000)\<close>; the
  re-protected range is \<open>[0xC0000000, 0xC0080000)\<close>.
\<close>

theorem reprotect_flush_range:
  "mmu_mapin_ram_chunk mpc8xx 0 0x80000 (PAGE_KERNEL mpc8xx) False small_mapped_state =
     (0, snd (mmu_mapin_ram_chunk mpc8xx 0 0x80000 (PAGE_KERNEL mpc8xx) False small_mapped_state)) \<and>
   trace (snd (mmu_mapin_ram_chunk mpc8xx 0 0x80000 (PAGE_KERNEL mpc8xx) False small_mapped_state)) =
     trace small_mapped_state @
     [SetHugePte \<lparr>cva = 0xC0000000, cpa = 0, cprot = PAGE_KERNEL mpc8xx, csize = 0x80000\<rparr>,
      FlushTlbKernelRange 0x80080000 0xC0080000] \<and>
   PAGE_OFFSET mpc8xx + 0 = 0xC0000000 \<and> PAGE_OFFSET mpc8xx + 0x80000 = 0xC0080000"
proof -
  let ?r = "mmu_mapin_ram_chunk mpc8xx 0 0x80000 (PAGE_KERNEL mpc8xx) False small_mapped_state"
  have "fst ?r = 0"
    unfolding small_mapped_state_def by code_simp
  then have "?r = (0, snd ?r)"
    by (simp add: prod_eq_iff)
  moreover have "trace (snd ?r) = trace small_mapped_state @
     [SetHugePte \<lparr>cva = 0xC0000000, cpa = 0, cprot = PAGE_KERNEL mpc8xx, csize = 0x80000\<rparr>,
      FlushTlbKernelRange 0x80080000 0xC0080000]"
    unfolding small_mapped_state_def by code_simp
  moreover have "PAGE_OFFSET mpc8xx + 0 = 0xC0000000" "PAGE_OFFSET mpc8xx + 0x80000 = 0xC0080000"
    by (simp_all add: mpc8xx_def)
  ultimately show ?thesis
    by simp
qed



text \<open>
  C4.  Both functions test the MMIO window first, whatever the windows are: an address in
  the MMIO window is always translated by the MMIO offset, also when it lies in the RAM
  window as well, and an address in the RAM window only is translated by \<open>PAGE_OFFSET\<close>.
  On well-formed windows (neither window runs past the end of the 32-bit address space,
  and the MMIO window and the RAM window overlap neither physically nor virtually),
  \<open>v_block_mapped\<close> and \<open>p_block_mapped\<close> are inverse to each other on the mapped
  windows: for every physical address in the MMIO window or below \<open>block_mapped_ram\<close>,
  translating to virtual and back gives the address again, and the same for every virtual
  address in the two virtual windows.
\<close>

theorem block_mapped_round_trip:
  "(in_phys_immr pl pa \<longrightarrow>
      p_block_mapped pl st pa = VIRT_IMMR_BASE pl + pa - PHYS_IMMR_BASE pl) \<and>
   (\<not> in_phys_immr pl pa \<and> in_phys_ram st pa \<longrightarrow>
      p_block_mapped pl st pa = va_of pl pa) \<and>
   (in_virt_immr pl va \<longrightarrow>
      v_block_mapped pl st va = PHYS_IMMR_BASE pl + va - VIRT_IMMR_BASE pl) \<and>
   (\<not> in_virt_immr pl va \<and> in_virt_ram pl st va \<longrightarrow>
      v_block_mapped pl st va = pa_of pl va) \<and>
   (windows_wf pl st \<longrightarrow>
      (in_phys_immr pl pa \<or> in_phys_ram st pa \<longrightarrow>
         v_block_mapped pl st (p_block_mapped pl st pa) = pa) \<and>
      (in_virt_immr pl va \<or> in_virt_ram pl st va \<longrightarrow>
         p_block_mapped pl st (v_block_mapped pl st va) = va))"
proof (intro conjI impI)
  assume "windows_wf pl st" and "in_phys_immr pl pa \<or> in_phys_ram st pa"
  then show "v_block_mapped pl st (p_block_mapped pl st pa) = pa"
    by (rule v_of_p)
next
  assume "windows_wf pl st" and "in_virt_immr pl va \<or> in_virt_ram pl st va"
  then show "p_block_mapped pl st (v_block_mapped pl st va) = va"
    by (rule p_of_v)
qed (simp_all add: v_block_mapped_windows p_block_mapped_windows)

theorem block_mapped_round_trip_witness:
  "windows_wf mpc8xx mapped_state \<and>
   in_phys_immr mpc8xx 0xFF000010 \<and>
   v_block_mapped mpc8xx mapped_state (p_block_mapped mpc8xx mapped_state 0xFF000010) = 0xFF000010 \<and>
   p_block_mapped mpc8xx mapped_state 0xFF000010 = 0xFFF00010 \<and>
   in_virt_immr mpc8xx 0xFFF00020 \<and>
   p_block_mapped mpc8xx mapped_state (v_block_mapped mpc8xx mapped_state 0xFFF00020) = 0xFFF00020 \<and>
   v_block_mapped mpc8xx mapped_state 0xFFF00020 = 0xFF000020 \<and>
   \<not> in_phys_immr mpc8xx 0x100000 \<and> in_phys_ram mapped_state 0x100000 \<and>
   p_block_mapped mpc8xx mapped_state 0x100000 = 0xC0100000 \<and>
   v_block_mapped mpc8xx mapped_state (p_block_mapped mpc8xx mapped_state 0x100000) = 0x100000 \<and>
   \<not> in_virt_immr mpc8xx 0xC0100000 \<and> in_virt_ram mpc8xx mapped_state 0xC0100000 \<and>
   v_block_mapped mpc8xx mapped_state 0xC0100000 = 0x100000 \<and>
   p_block_mapped mpc8xx mapped_state (v_block_mapped mpc8xx mapped_state 0xC0100000) = 0xC0100000 \<and>
   in_phys_immr mpc8xx_overlap 0x1000010 \<and> in_phys_ram mapped_state 0x1000010 \<and>
   p_block_mapped mpc8xx_overlap mapped_state 0x1000010 = 0xC0800010 \<and>
   va_of mpc8xx_overlap 0x1000010 = 0xC1000010 \<and>
   in_virt_immr mpc8xx_overlap 0xC0800010 \<and> in_virt_ram mpc8xx_overlap mapped_state 0xC0800010 \<and>
   v_block_mapped mpc8xx_overlap mapped_state 0xC0800010 = 0x1000010 \<and>
   pa_of mpc8xx_overlap 0xC0800010 = 0x800010"
proof -
  have pi: "in_phys_immr mpc8xx 0xFF000010"
    by (simp add: in_phys_immr_def IMMR_SIZE_def mpc8xx_def)
  have vi: "in_virt_immr mpc8xx 0xFFF00020"
    by (simp add: in_virt_immr_def IMMR_SIZE_def mpc8xx_def)
  have pr: "\<not> in_phys_immr mpc8xx 0x100000" "in_phys_ram mapped_state 0x100000"
    by (simp_all add: in_phys_immr_def IMMR_SIZE_def in_phys_ram_def mapped_top mpc8xx_def)
  have vr: "\<not> in_virt_immr mpc8xx 0xC0100000" "in_virt_ram mpc8xx mapped_state 0xC0100000"
    by (simp_all add: in_virt_immr_def IMMR_SIZE_def in_virt_ram_def mapped_top mpc8xx_def)
  have po: "in_phys_immr mpc8xx_overlap 0x1000010" "in_phys_ram mapped_state 0x1000010"
    by (simp_all add: in_phys_immr_def IMMR_SIZE_def in_phys_ram_def mapped_top
        mpc8xx_overlap_def mpc8xx_def)
  have vo: "in_virt_immr mpc8xx_overlap 0xC0800010"
    "in_virt_ram mpc8xx_overlap mapped_state 0xC0800010"
    by (simp_all add: in_virt_immr_def IMMR_SIZE_def in_virt_ram_def mapped_top
        mpc8xx_overlap_def mpc8xx_def)
  have e1: "VIRT_IMMR_BASE mpc8xx + 0xFF000010 - PHYS_IMMR_BASE mpc8xx = 0xFFF00010"
    by (simp add: mpc8xx_def)
  have e2: "PHYS_IMMR_BASE mpc8xx + 0xFFF00020 - VIRT_IMMR_BASE mpc8xx = 0xFF000020"
    by (simp add: mpc8xx_def)
  have e3: "va_of mpc8xx 0x100000 = 0xC0100000"
    by (simp add: va_of_def mpc8xx_def)
  have e4: "pa_of mpc8xx 0xC0100000 = 0x100000"
    by (simp add: pa_of_def mpc8xx_def)
  have e5: "VIRT_IMMR_BASE mpc8xx_overlap + 0x1000010 - PHYS_IMMR_BASE mpc8xx_overlap
      = 0xC0800010"
    by (simp add: mpc8xx_overlap_def mpc8xx_def)
  have e6: "PHYS_IMMR_BASE mpc8xx_overlap + 0xC0800010 - VIRT_IMMR_BASE mpc8xx_overlap
      = 0x1000010"
    by (simp add: mpc8xx_overlap_def mpc8xx_def)
  have e7: "va_of mpc8xx_overlap 0x1000010 = 0xC1000010"
    by (simp add: va_of_def mpc8xx_overlap_def mpc8xx_def)
  have e8: "pa_of mpc8xx_overlap 0xC0800010 = 0x800010"
    by (simp add: pa_of_def mpc8xx_overlap_def mpc8xx_def)
  note immr = block_mapped_round_trip [of mpc8xx "0xFF000010" mapped_state "0xFFF00020"]
  note ram = block_mapped_round_trip [of mpc8xx "0x100000" mapped_state "0xC0100000"]
  note both = block_mapped_round_trip [of mpc8xx_overlap "0x1000010" mapped_state "0xC0800010"]
  from immr pi vi mapped_wf have
    "v_block_mapped mpc8xx mapped_state (p_block_mapped mpc8xx mapped_state 0xFF000010) = 0xFF000010"
    "p_block_mapped mpc8xx mapped_state (v_block_mapped mpc8xx mapped_state 0xFFF00020) = 0xFFF00020"
    "p_block_mapped mpc8xx mapped_state 0xFF000010 =
       VIRT_IMMR_BASE mpc8xx + 0xFF000010 - PHYS_IMMR_BASE mpc8xx"
    "v_block_mapped mpc8xx mapped_state 0xFFF00020 =
       PHYS_IMMR_BASE mpc8xx + 0xFFF00020 - VIRT_IMMR_BASE mpc8xx"
    by blast+
  moreover from ram pr vr mapped_wf have
    "v_block_mapped mpc8xx mapped_state (p_block_mapped mpc8xx mapped_state 0x100000) = 0x100000"
    "p_block_mapped mpc8xx mapped_state (v_block_mapped mpc8xx mapped_state 0xC0100000) = 0xC0100000"
    "p_block_mapped mpc8xx mapped_state 0x100000 = va_of mpc8xx 0x100000"
    "v_block_mapped mpc8xx mapped_state 0xC0100000 = pa_of mpc8xx 0xC0100000"
    by blast+
  moreover from both po vo have
    "p_block_mapped mpc8xx_overlap mapped_state 0x1000010 =
       VIRT_IMMR_BASE mpc8xx_overlap + 0x1000010 - PHYS_IMMR_BASE mpc8xx_overlap"
    "v_block_mapped mpc8xx_overlap mapped_state 0xC0800010 =
       PHYS_IMMR_BASE mpc8xx_overlap + 0xC0800010 - VIRT_IMMR_BASE mpc8xx_overlap"
    by blast+
  ultimately show ?thesis
    using mapped_wf pi vi pr vr po vo e7 e8 by (simp only: e1 e2 e3 e4 e5 e6 simp_thms)
qed

text \<open>
  C5.  Every chunk that a call of \<open>mmu_mapin_ram_chunk\<close> installs has size 512 KB or
  8 MB, and an 8 MB chunk starts and ends at 8 MB-aligned physical addresses; its virtual
  start and end are 8 MB-aligned as well when \<open>PAGE_OFFSET\<close> is.
\<close>

theorem mmu_mapin_ram_chunk_sizes:
  "\<forall>c \<in> set (new_chunks st (snd (mmu_mapin_ram_chunk pl offset ptop prot new st))).
     (csize c = SZ_512K \<or> csize c = SZ_8M) \<and>
     (csize c = SZ_8M \<longrightarrow>
        IS_ALIGNED (cpa c) SZ_8M \<and> IS_ALIGNED (cpa c + csize c) SZ_8M \<and>
        (IS_ALIGNED (PAGE_OFFSET pl) SZ_8M \<longrightarrow>
           IS_ALIGNED (cva c) SZ_8M \<and> IS_ALIGNED (cva c + csize c) SZ_8M))"
proof
  let ?r = "mmu_mapin_ram_chunk pl offset ptop prot new st"
  fix c assume c: "c \<in> set (new_chunks st (snd ?r))"
  have "?r = (fst ?r, snd ?r)"
    by simp
  from mmu_mapin_ram_chunk_post [OF this] obtain cs where
    "installed (trace (snd ?r)) = installed (trace st) @ cs" and
    each: "\<forall>c \<in> set cs. (csize c = SZ_512K \<or> csize c = SZ_8M) \<and>
             cva c = PAGE_OFFSET pl + cpa c \<and>
             (csize c = SZ_8M \<longrightarrow> unat (cpa c) mod 8388608 = 0)"
    by blast
  then have "new_chunks st (snd ?r) = cs"
    by (intro new_chunks_eq)
  with c each have legal: "csize c = SZ_512K \<or> csize c = SZ_8M"
    and va: "cva c = PAGE_OFFSET pl + cpa c"
    and large: "csize c = SZ_8M \<longrightarrow> IS_ALIGNED (cpa c) SZ_8M"
    by (simp_all add: IS_ALIGNED_8M)
  show "(csize c = SZ_512K \<or> csize c = SZ_8M) \<and>
     (csize c = SZ_8M \<longrightarrow>
        IS_ALIGNED (cpa c) SZ_8M \<and> IS_ALIGNED (cpa c + csize c) SZ_8M \<and>
        (IS_ALIGNED (PAGE_OFFSET pl) SZ_8M \<longrightarrow>
           IS_ALIGNED (cva c) SZ_8M \<and> IS_ALIGNED (cva c + csize c) SZ_8M))"
    using legal large va
    by (auto intro!: IS_ALIGNED_8M_add IS_ALIGNED_8M_self)
qed

theorem mmu_mapin_ram_chunk_sizes_witness:
  "\<lparr>cva = 0xC0000000, cpa = 0, cprot = 0x1F1, csize = 0x800000\<rparr> \<in>
     set (new_chunks boot_state
       (snd (mmu_mapin_ram_chunk mpc8xx 0 0x880000 (PAGE_KERNEL mpc8xx) True boot_state))) \<and>
   (0x800000 :: u32) = SZ_8M \<and> IS_ALIGNED (PAGE_OFFSET mpc8xx) SZ_8M \<and>
   IS_ALIGNED (0 :: u32) SZ_8M \<and> IS_ALIGNED (0 + 0x800000 :: u32) SZ_8M \<and>
   IS_ALIGNED (0xC0000000 :: u32) SZ_8M \<and> IS_ALIGNED (0xC0000000 + 0x800000 :: u32) SZ_8M"
proof -
  let ?c = "\<lparr>cva = 0xC0000000, cpa = 0, cprot = 0x1F1, csize = 0x800000 :: u32\<rparr>"
  have mem: "?c \<in> set (new_chunks boot_state
       (snd (mmu_mapin_ram_chunk mpc8xx 0 0x880000 (PAGE_KERNEL mpc8xx) True boot_state)))"
    by (simp add: boot_chunks)
  have sz: "(0x800000 :: u32) = SZ_8M"
    by (simp add: SZ_8M_def)
  have po: "IS_ALIGNED (PAGE_OFFSET mpc8xx) SZ_8M"
    by (simp add: IS_ALIGNED_def SZ_8M_def mpc8xx_def)
  from mmu_mapin_ram_chunk_sizes [of boot_state mpc8xx 0 "0x880000" "PAGE_KERNEL mpc8xx" True]
    mem
  have "csize ?c = SZ_8M \<longrightarrow>
        IS_ALIGNED (cpa ?c) SZ_8M \<and> IS_ALIGNED (cpa ?c + csize ?c) SZ_8M \<and>
        (IS_ALIGNED (PAGE_OFFSET mpc8xx) SZ_8M \<longrightarrow>
           IS_ALIGNED (cva ?c) SZ_8M \<and> IS_ALIGNED (cva ?c + csize ?c) SZ_8M)"
    by blast
  with sz po mem show ?thesis
    by simp
qed

text \<open>
  C6.  \<open>mmu_mapin_ram_chunk\<close> from 512 KB to 8 MB installs no 8 MB chunk, only 512 KB
  ones; when it returns 0 (no install has failed) it has installed fifteen chunks and no
  more: the \<open>i\<close>-th (from 0) has physical address \<open>(i + 1) * 512 KB\<close> and virtual
  address \<open>PAGE_OFFSET\<close> plus that.
\<close>

theorem mmu_mapin_ram_chunk_unaligned_head:
  assumes "mmu_mapin_ram_chunk pl 0x80000 0x800000 prot new st = (err, st')"
  shows "(\<forall>c \<in> set (new_chunks st st'). csize c = SZ_512K \<and> csize c \<noteq> SZ_8M) \<and>
         (err = 0 \<longrightarrow>
            length (new_chunks st st') = 15 \<and>
            (\<forall>i < 15. unat (cpa (new_chunks st st' ! i)) = (i + 1) * 524288 \<and>
               cva (new_chunks st st' ! i) = PAGE_OFFSET pl + cpa (new_chunks st st' ! i)))"
proof -
  from mmu_mapin_ram_chunk_post [OF assms] obtain cs and p3 :: u32 where
    tr: "installed (trace st') = installed (trace st) @ cs" and
    each: "\<forall>c \<in> set cs. (csize c = SZ_512K \<or> csize c = SZ_8M) \<and>
             cva c = PAGE_OFFSET pl + cpa c \<and>
             (csize c = SZ_8M \<longrightarrow> unat (cpa c) mod 8388608 = 0) \<and>
             unat (0x80000 :: u32) \<le> unat (cpa c) \<and>
             unat (cpa c) + unat (csize c) \<le> unat p3" and
    til: "err = 0 \<longrightarrow> tiles cpa (unat (0x80000 :: u32)) (unat p3) cs" and
    fin: "unat (0x80000 :: u32) mod 524288 = 0 \<and> unat (0x800000 :: u32) mod 524288 = 0 \<and>
          unat (0x80000 :: u32) \<le> unat (0x800000 :: u32) \<longrightarrow>
          unat p3 \<le> unat (0x800000 :: u32) \<and> (err = 0 \<longrightarrow> p3 = 0x800000)"
    by blast
  from fin have below: "unat p3 \<le> 8388608" and reached: "err = 0 \<longrightarrow> p3 = 0x800000"
    by simp_all
  have small: "\<forall>c \<in> set cs. csize c = SZ_512K"
  proof
    fix c assume c: "c \<in> set cs"
    with each below have "524288 \<le> unat (cpa c)" "unat (cpa c) + unat (csize c) \<le> 8388608"
      by auto
    then have "csize c \<noteq> SZ_8M"
      by (auto simp: unat_SZ_8M)
    with each c show "csize c = SZ_512K"
      by auto
  qed
  have cs: "new_chunks st st' = cs"
    using tr by (rule new_chunks_eq)
  have "length cs = 15 \<and> (\<forall>i < 15. unat (cpa (cs ! i)) = (i + 1) * 524288 \<and>
      cva (cs ! i) = PAGE_OFFSET pl + cpa (cs ! i))" if "err = 0"
  proof -
    from that til reached have til': "tiles cpa 524288 8388608 cs"
      by simp
    from tiles_uniform [OF til' small] have
      len: "8388608 = 524288 + length cs * 524288" and
      pos: "\<forall>i < length cs. unat (cpa (cs ! i)) = 524288 + i * 524288"
      by (simp_all add: unat_SZ_512K)
    from len have "length cs = 15"
      by simp
    with pos each show ?thesis
      by simp
  qed
  with small cs show ?thesis
    by (simp add: SZ_512K_def SZ_8M_def)
qed

theorem mmu_mapin_ram_chunk_unaligned_head_witness:
  "fst (mmu_mapin_ram_chunk mpc8xx 0x80000 0x800000 (PAGE_KERNEL mpc8xx) True boot_state) = 0 \<and>
   length (new_chunks boot_state
     (snd (mmu_mapin_ram_chunk mpc8xx 0x80000 0x800000 (PAGE_KERNEL mpc8xx) True boot_state)))
     = 15 \<and>
   (14 :: nat) < 15 \<and>
   unat (cpa (new_chunks boot_state
     (snd (mmu_mapin_ram_chunk mpc8xx 0x80000 0x800000 (PAGE_KERNEL mpc8xx) True boot_state))
       ! 14)) = 7864320 \<and>
   csize (new_chunks boot_state
     (snd (mmu_mapin_ram_chunk mpc8xx 0x80000 0x800000 (PAGE_KERNEL mpc8xx) True boot_state))
       ! 14) = SZ_512K"
proof -
  let ?r = "mmu_mapin_ram_chunk mpc8xx 0x80000 0x800000 (PAGE_KERNEL mpc8xx) True boot_state"
  have run: "?r = (0, snd ?r)"
    using head_run by (simp add: prod_eq_iff)
  note inst = mmu_mapin_ram_chunk_unaligned_head [OF run]
  from inst have len: "length (new_chunks boot_state (snd ?r)) = 15"
    and pos: "(14 :: nat) < 15 \<longrightarrow>
       unat (cpa (new_chunks boot_state (snd ?r) ! 14)) = (14 + 1) * 524288"
    by blast+
  from len have "new_chunks boot_state (snd ?r) ! 14 \<in> set (new_chunks boot_state (snd ?r))"
    by simp
  with inst have "csize (new_chunks boot_state (snd ?r) ! 14) = SZ_512K"
    by blast
  with head_run len pos show ?thesis
    by simp
qed

text \<open>
  C7.  \<open>early_hugepd_alloc_kernel\<close> on a non-empty first slot allocates nothing, changes
  nothing and returns the sub-entry for \<open>va\<close> of the existing sub-table.  On an empty
  first slot it asks the early allocator once, for \<open>sizeof(pte_basic_t)\<close> bytes aligned
  to 4 KB; when the allocator returns NULL the result is NULL and no slot is changed;
  otherwise the block is registered in the slot and in the next one and the result is the
  sub-entry for \<open>va\<close> in that block.
\<close>

theorem early_hugepd_alloc_kernel_slots:
  "(pgd st pmdp \<noteq> 0 \<longrightarrow>
      early_hugepd_alloc_kernel pl pmdp va st =
        (hugepte_offset pl (pgd st pmdp) va (PGDIR_SHIFT pl), st)) \<and>
   (pgd st pmdp = 0 \<longrightarrow>
      (\<exists>b ptep st'.
         b = fst (memblock_alloc (sizeof_pte_basic_t pl) SZ_4K st) \<and>
         early_hugepd_alloc_kernel pl pmdp va st = (ptep, st') \<and>
         trace st' = trace st @ [MemblockAlloc (sizeof_pte_basic_t pl) SZ_4K b] \<and>
         ptes st' = ptes st \<and>
         (b = 0 \<longrightarrow> ptep = 0 \<and> pgd st' = pgd st) \<and>
         (b \<noteq> 0 \<longrightarrow>
            pgd st' = (pgd st)(pmdp := b, pmdp + 1 := b) \<and>
            ptep = hugepte_offset pl b va (PGDIR_SHIFT pl))))"
  by (auto simp: early_hugepd_alloc_kernel_def memblock_alloc_def hugepd_populate_kernel_def
      emit_def split: list.splits)

theorem early_hugepd_alloc_kernel_slots_witness:
  "pgd boot_state 768 = 0 \<and>
   fst (memblock_alloc (sizeof_pte_basic_t mpc8xx) SZ_4K boot_state) \<noteq> 0 \<and>
   fst (early_hugepd_alloc_kernel mpc8xx 768 0xC0000000 boot_state) = 0x1FFF000 \<and>
   pgd (snd (early_hugepd_alloc_kernel mpc8xx 768 0xC0000000 boot_state)) 768 = 0x1FFF000 \<and>
   pgd (snd (early_hugepd_alloc_kernel mpc8xx 768 0xC0000000 boot_state)) 769 = 0x1FFF000 \<and>
   trace (snd (early_hugepd_alloc_kernel mpc8xx 768 0xC0000000 boot_state)) =
     [MemblockAlloc 4 0x1000 0x1FFF000] \<and>
   fst (memblock_alloc (sizeof_pte_basic_t mpc8xx) SZ_4K (boot_state\<lparr>memblock_pool := []\<rparr>)) = 0 \<and>
   fst (early_hugepd_alloc_kernel mpc8xx 768 0xC0000000 (boot_state\<lparr>memblock_pool := []\<rparr>)) = 0 \<and>
   pgd (snd (early_hugepd_alloc_kernel mpc8xx 768 0xC0000000 (boot_state\<lparr>memblock_pool := []\<rparr>)))
     = pgd boot_state \<and>
   pgd huge_mapped_state 768 \<noteq> 0 \<and>
   early_hugepd_alloc_kernel mpc8xx 768 0xC0000000 huge_mapped_state =
     (0x1FFF000, huge_mapped_state)"
proof -
  have empty: "pgd boot_state 768 = 0" "pgd (boot_state\<lparr>memblock_pool := []\<rparr>) 768 = 0"
    by (simp_all add: boot_state_def)
  have some: "fst (memblock_alloc (sizeof_pte_basic_t mpc8xx) SZ_4K boot_state) = 0x1FFF000"
    by (simp add: memblock_alloc_def boot_state_def)
  have none: "fst (memblock_alloc (sizeof_pte_basic_t mpc8xx) SZ_4K
      (boot_state\<lparr>memblock_pool := []\<rparr>)) = 0"
    by (simp add: memblock_alloc_def)
  have full: "pgd huge_mapped_state 768 = 0x1FFF000"
    unfolding huge_mapped_state_def by code_simp
  have sub: "hugepte_offset mpc8xx 0x1FFF000 0xC0000000 (PGDIR_SHIFT mpc8xx) = 0x1FFF000"
    by (simp add: mpc8xx_def)
  have vals: "sizeof_pte_basic_t mpc8xx = 4" "SZ_4K = 0x1000" "trace boot_state = []"
    "pgd (boot_state\<lparr>memblock_pool := []\<rparr>) = pgd boot_state"
    by (simp_all add: mpc8xx_def SZ_4K_def boot_state_def)
  note a = early_hugepd_alloc_kernel_slots [of boot_state 768 mpc8xx "0xC0000000"]
  note b = early_hugepd_alloc_kernel_slots
    [of "boot_state\<lparr>memblock_pool := []\<rparr>" 768 mpc8xx "0xC0000000"]
  note c = early_hugepd_alloc_kernel_slots [of huge_mapped_state 768 mpc8xx "0xC0000000"]
  from a empty(1) some sub vals have
    "fst (early_hugepd_alloc_kernel mpc8xx 768 0xC0000000 boot_state) = 0x1FFF000"
    "pgd (snd (early_hugepd_alloc_kernel mpc8xx 768 0xC0000000 boot_state)) 768 = 0x1FFF000"
    "pgd (snd (early_hugepd_alloc_kernel mpc8xx 768 0xC0000000 boot_state)) 769 = 0x1FFF000"
    "trace (snd (early_hugepd_alloc_kernel mpc8xx 768 0xC0000000 boot_state)) =
       [MemblockAlloc 4 0x1000 0x1FFF000]"
    by auto
  moreover from b empty(2) none vals have
    "fst (early_hugepd_alloc_kernel mpc8xx 768 0xC0000000 (boot_state\<lparr>memblock_pool := []\<rparr>)) = 0"
    "pgd (snd (early_hugepd_alloc_kernel mpc8xx 768 0xC0000000 (boot_state\<lparr>memblock_pool := []\<rparr>)))
       = pgd boot_state"
    by auto
  moreover from c full sub have
    "early_hugepd_alloc_kernel mpc8xx 768 0xC0000000 huge_mapped_state =
       (0x1FFF000, huge_mapped_state)"
    by simp
  ultimately show ?thesis
    using empty some none full by simp
qed

text \<open>
  The block asked for is not page-sized: on the example platform, whose pages are 4 KB,
  the request made on an empty slot is for 4 bytes.
\<close>

theorem early_hugepd_alloc_kernel_not_page_sized:
  "pgd boot_state 768 = 0 \<and>
   trace (snd (early_hugepd_alloc_kernel mpc8xx 768 0xC0000000 boot_state)) =
     [MemblockAlloc 4 0x1000 0x1FFF000] \<and>
   (4 :: u32) \<noteq> push_bit (PAGE_SHIFT mpc8xx) 1 \<and> (4 :: u32) \<noteq> SZ_4K"
  by code_simp

text \<open>
  C8.  \<open>mmu_mapin_ram\<close> returns the physical address of \<open>_sinittext\<close> (the boundary of
  the strict layout) when \<open>debug_pagealloc_enabled_or_kfence()\<close> holds, and its \<open>top\<close>
  argument otherwise.  \<open>block_mapped_ram\<close> is that value afterwards.  The store to
  \<open>block_mapped_ram\<close> is the last event of the call and the only store: up to it the
  variable keeps its old value, and every install of the call comes before it.  In the
  debug case every chunk installed by the call is the IMMR chunk or lies below the
  returned boundary.
\<close>

theorem mmu_mapin_ram_top:
  assumes "mmu_mapin_ram pl base ptop st = (t, st')"
  shows "t = (if debug_pagealloc_enabled_or_kfence pl then pa_of pl (sinittext pl) else ptop) \<and>
         block_mapped_ram st' = t \<and>
         (\<exists>s evs. trace s = trace st @ evs \<and> stores evs = [] \<and>
            block_mapped_ram s = block_mapped_ram st \<and>
            st' = emit (StoreBlockMappedRam t) (s\<lparr>block_mapped_ram := t\<rparr>) \<and>
            trace st' = trace st @ evs @ [StoreBlockMappedRam t] \<and>
            new_chunks st st' = installed evs) \<and>
         (debug_pagealloc_enabled_or_kfence pl \<longrightarrow>
            (\<forall>c \<in> set (new_chunks st st').
               cva c = VIRT_IMMR_BASE pl \<and> cpa c = PHYS_IMMR_BASE pl \<or>
               unat (cpa c) + unat (csize c) \<le> unat t))"
proof -
  let ?debug = "debug_pagealloc_enabled_or_kfence pl"
  define boundary where "boundary =
    (if strict_kernel_rwx_enabled pl \<or> ?debug then pa_of pl (sinittext pl)
     else ALIGN (pa_of pl (etext pl)) SZ_8M)"
  define einittext8 where "einittext8 = ALIGN (pa_of pl (einittext pl)) SZ_8M"
  define s1 where "s1 = mmu_mapin_immr pl st"
  define r2 where "r2 = mmu_mapin_ram_chunk pl 0 boundary (PAGE_KERNEL_TEXT pl) True s1"
  define r3 where "r3 = mmu_mapin_ram_chunk pl boundary einittext8 (PAGE_KERNEL_TEXT pl) True (snd r2)"
  define r4 where "r4 = mmu_mapin_ram_chunk pl einittext8 ptop (PAGE_KERNEL pl) True (snd r3)"
  define s3 where "s3 = (if ?debug then snd r2 else snd r4)"
  define t' where "t' = (if ?debug then boundary else ptop)"
  define s4 where "s4 = (if t' > SZ_32M then memblock_set_current_limit t' s3 else s3)"
  have "mmu_mapin_ram pl base ptop st =
      (t', emit (StoreBlockMappedRam t') (s4\<lparr>block_mapped_ram := t'\<rparr>))"
    by (simp add: mmu_mapin_ram_def Let_def boundary_def einittext8_def s1_def r2_def r3_def
        r4_def s3_def t'_def s4_def)
  with assms have t: "t = t'"
    and st': "st' = emit (StoreBlockMappedRam t) (s4\<lparr>block_mapped_ram := t\<rparr>)"
    by auto
  have n1: "nostore st s1"
    unfolding s1_def by (rule nostore_immr)
  have n2: "nostore s1 (snd r2)"
    by (rule nostore_chunk [of pl 0 boundary "PAGE_KERNEL_TEXT pl" s1 "fst r2"])
      (simp add: r2_def)
  have n3: "nostore (snd r2) (snd r3)"
    by (rule nostore_chunk [of pl boundary einittext8 "PAGE_KERNEL_TEXT pl" "snd r2" "fst r3"])
      (simp add: r3_def)
  have n4: "nostore (snd r3) (snd r4)"
    by (rule nostore_chunk [of pl einittext8 ptop "PAGE_KERNEL pl" "snd r3" "fst r4"])
      (simp add: r4_def)
  have n12: "nostore st (snd r2)"
    using n1 n2 by (rule nostore_trans)
  then have "nostore st (snd r3)"
    using n3 by (rule nostore_trans)
  then have "nostore st (snd r4)"
    using n4 by (rule nostore_trans)
  with n12 have "nostore st s3"
    by (simp add: s3_def)
  moreover have "nostore s3 s4"
    by (simp add: s4_def nostore_refl nostore_limit)
  ultimately have "nostore st s4"
    by (rule nostore_trans)
  then obtain evs where evs: "trace s4 = trace st @ evs" "stores evs = []"
    and old: "block_mapped_ram s4 = block_mapped_ram st"
    unfolding nostore_def by blast
  have tr: "trace st' = trace st @ evs @ [StoreBlockMappedRam t]"
    using evs(1) by (simp add: st' emit_def)
  then have "installed (trace st') = installed (trace st) @ installed evs"
    by (simp add: installed_append)
  then have nc: "new_chunks st st' = installed evs"
    by (rule new_chunks_eq)
  have val: "block_mapped_ram st' = t"
    by (simp add: st' emit_def)
  have dbg: "\<forall>c \<in> set (new_chunks st st').
               cva c = VIRT_IMMR_BASE pl \<and> cpa c = PHYS_IMMR_BASE pl \<or>
               unat (cpa c) + unat (csize c) \<le> unat t" if d: ?debug
  proof -
    from d t have tb: "t = boundary"
      by (simp add: t'_def)
    from installed_immr [of pl st] obtain cs1 where
      i1: "installed (trace s1) = installed (trace st) @ cs1" and
      c1: "\<forall>c \<in> set cs1. cva c = VIRT_IMMR_BASE pl \<and> cpa c = PHYS_IMMR_BASE pl"
      unfolding s1_def by blast
    have "mmu_mapin_ram_chunk pl 0 boundary (PAGE_KERNEL_TEXT pl) True s1 = (fst r2, snd r2)"
      by (simp add: r2_def)
    from mmu_mapin_ram_chunk_post [OF this] obtain cs2 and p3 :: u32 where
      i2: "installed (trace (snd r2)) = installed (trace s1) @ cs2" and
      c2: "\<forall>c \<in> set cs2. unat (cpa c) + unat (csize c) \<le> unat p3" and
      b2: "unat p3 \<le> unat boundary"
      by auto
    have "trace s4 = trace (snd r2) \<or> trace s4 = trace (snd r2) @ [MemblockSetCurrentLimit t']"
      using d by (simp add: s4_def s3_def memblock_set_current_limit_def emit_def)
    then have "installed (trace s4) = installed (trace (snd r2))"
      by (auto simp: installed_append)
    then have "installed (trace st') = installed (trace st) @ cs1 @ cs2"
      using i1 i2 by (simp add: st' emit_def installed_append)
    then have "new_chunks st st' = cs1 @ cs2"
      by (rule new_chunks_eq)
    with c1 c2 b2 tb show ?thesis
      by auto
  qed
  have "\<exists>s evs. trace s = trace st @ evs \<and> stores evs = [] \<and>
            block_mapped_ram s = block_mapped_ram st \<and>
            st' = emit (StoreBlockMappedRam t) (s\<lparr>block_mapped_ram := t\<rparr>) \<and>
            trace st' = trace st @ evs @ [StoreBlockMappedRam t] \<and>
            new_chunks st st' = installed evs"
    using evs old st' tr nc by blast
  moreover have "t = (if ?debug then pa_of pl (sinittext pl) else ptop)"
    using t by (simp add: t'_def boundary_def)
  ultimately show ?thesis
    using val dbg by blast
qed

theorem mmu_mapin_ram_top_witness:
  "debug_pagealloc_enabled_or_kfence mpc8xx_debug \<and>
   fst (mmu_mapin_ram mpc8xx_debug 0 0x1800000 boot_state) = 0x900000 \<and>
   block_mapped_ram (snd (mmu_mapin_ram mpc8xx_debug 0 0x1800000 boot_state)) = 0x900000 \<and>
   \<lparr>cva = 0xC0880000, cpa = 0x880000, cprot = 0x1D1, csize = 0x80000\<rparr> \<in>
     set (new_chunks boot_state (snd (mmu_mapin_ram mpc8xx_debug 0 0x1800000 boot_state))) \<and>
   unat (0x880000 :: u32) + unat (0x80000 :: u32) \<le>
     unat (fst (mmu_mapin_ram mpc8xx_debug 0 0x1800000 boot_state)) \<and>
   \<not> debug_pagealloc_enabled_or_kfence mpc8xx \<and>
   fst (mmu_mapin_ram mpc8xx 0 0x1800000 boot_state) = 0x1800000 \<and>
   block_mapped_ram (snd (mmu_mapin_ram mpc8xx 0 0x1800000 boot_state)) = 0x1800000 \<and>
   last (trace (snd (mmu_mapin_ram mpc8xx 0 0x1800000 boot_state))) =
     StoreBlockMappedRam 0x1800000"
proof -
  let ?d = "mmu_mapin_ram mpc8xx_debug 0 0x1800000 boot_state"
  let ?n = "mmu_mapin_ram mpc8xx 0 0x1800000 boot_state"
  let ?c = "\<lparr>cva = 0xC0880000, cpa = 0x880000, cprot = 0x1D1, csize = 0x80000 :: u32\<rparr>"
  have dbg: "debug_pagealloc_enabled_or_kfence mpc8xx_debug"
    "\<not> debug_pagealloc_enabled_or_kfence mpc8xx"
    by (simp_all add: mpc8xx_debug_def mpc8xx_def)
  have sym: "pa_of mpc8xx_debug (sinittext mpc8xx_debug) = 0x900000"
    by (simp add: pa_of_def mpc8xx_debug_def mpc8xx_def)
  have mem: "?c \<in> set (new_chunks boot_state (snd ?d))"
    by (simp add: debug_chunks)
  have other: "\<not> (cva ?c = VIRT_IMMR_BASE mpc8xx_debug \<and> cpa ?c = PHYS_IMMR_BASE mpc8xx_debug)"
    by (simp add: mpc8xx_debug_def mpc8xx_def)
  have "?d = (fst ?d, snd ?d)"
    by simp
  note d = mmu_mapin_ram_top [OF this]
  have "?n = (fst ?n, snd ?n)"
    by simp
  note n = mmu_mapin_ram_top [OF this]
  from d dbg(1) sym have d1: "fst ?d = 0x900000" "block_mapped_ram (snd ?d) = 0x900000"
    by simp_all
  from d dbg(1) mem have "cva ?c = VIRT_IMMR_BASE mpc8xx_debug \<and> cpa ?c = PHYS_IMMR_BASE mpc8xx_debug \<or>
      unat (cpa ?c) + unat (csize ?c) \<le> unat (fst ?d)"
    by blast
  with other have "unat (cpa ?c) + unat (csize ?c) \<le> unat (fst ?d)"
    by blast
  then have d2: "unat (0x880000 :: u32) + unat (0x80000 :: u32) \<le> unat (fst ?d)"
    by simp
  from n dbg(2) have n1: "fst ?n = 0x1800000" "block_mapped_ram (snd ?n) = 0x1800000"
    by simp_all
  from n obtain evs where "trace (snd ?n) = trace boot_state @ evs @ [StoreBlockMappedRam (fst ?n)]"
    by blast
  with n1 have n2: "last (trace (snd ?n)) = StoreBlockMappedRam 0x1800000"
    by simp
  from dbg d1 mem d2 n1 n2 show ?thesis
    by simp
qed

text \<open>
  C9.  \<open>setup_initial_memory_limit\<close> takes the \<open>BUG_ON\<close> branch when the base of the
  first memory region is not 0; when it is 0 it sets the current limit of the early
  allocator to the minimum of the region's size and 32 MB: 32 MB for a region of
  64 MB, 16 MB for a region of 16 MB.
\<close>

theorem setup_initial_memory_limit_clamp:
  "(first_memblock_base \<noteq> 0 \<longrightarrow>
      setup_initial_memory_limit first_memblock_base first_memblock_size st = Inl BUG) \<and>
   (first_memblock_base = 0 \<longrightarrow>
      (\<exists>st'. setup_initial_memory_limit first_memblock_base first_memblock_size st = Inr st' \<and>
         memblock_current_limit st' = min first_memblock_size SZ_32M \<and>
         unat (memblock_current_limit st') = min (unat first_memblock_size) (32 * 1024 * 1024))) \<and>
   (\<exists>st'. setup_initial_memory_limit 0 0x4000000 st = Inr st' \<and>
      memblock_current_limit st' = 0x2000000) \<and>
   (\<exists>st'. setup_initial_memory_limit 0 0x1000000 st = Inr st' \<and>
      memblock_current_limit st' = 0x1000000)"
proof -
  have run: "setup_initial_memory_limit 0 sz s =
      Inr (memblock_set_current_limit (min sz SZ_32M) s)" for sz s
    by (simp add: setup_initial_memory_limit_def min_u64_u32)
  have lim: "memblock_current_limit (memblock_set_current_limit l s) = l" for l s
    by (simp add: memblock_set_current_limit_def emit_def)
  have "unat (min first_memblock_size SZ_32M) = min (unat first_memblock_size) (32 * 1024 * 1024)"
    by (simp add: min_def word_le_nat_alt SZ_32M_def)
  moreover have "min (0x4000000 :: u32) SZ_32M = 0x2000000"
    "min (0x1000000 :: u32) SZ_32M = 0x1000000"
    by (simp_all add: SZ_32M_def)
  moreover have "first_memblock_base \<noteq> 0 \<longrightarrow>
      setup_initial_memory_limit first_memblock_base first_memblock_size st = Inl BUG"
    by (simp add: setup_initial_memory_limit_def)
  ultimately show ?thesis
    by (simp add: run lim)
qed

theorem setup_initial_memory_limit_clamp_witness:
  "(0x1000 :: u32) \<noteq> 0 \<and>
   setup_initial_memory_limit 0x1000 0x4000000 boot_state = Inl BUG \<and>
   (\<exists>st'. setup_initial_memory_limit 0 0x4000000 boot_state = Inr st' \<and>
      memblock_current_limit st' = 0x2000000 \<and>
      unat (memblock_current_limit st') = 33554432) \<and>
   (\<exists>st'. setup_initial_memory_limit 0 0x1000000 boot_state = Inr st' \<and>
      memblock_current_limit st' = 0x1000000)"
  using setup_initial_memory_limit_clamp [of "0x1000" "0x4000000" boot_state]
    setup_initial_memory_limit_clamp [of 0 "0x4000000" boot_state]
  by (simp add: SZ_32M_def)

text \<open>
  C10.  Both translation functions return 0 for an address outside both windows, and 0
  is also the translation of the first RAM address: when \<open>block_mapped_ram\<close> is not 0
  (and the kernel offset is not inside the MMIO window), \<open>v_block_mapped\<close> returns 0
  at \<open>PAGE_OFFSET\<close>, which lies in the RAM window and has physical address 0.
\<close>

theorem unmapped_sentinel_collides:
  assumes "0 < block_mapped_ram st" and "\<not> in_virt_immr pl (PAGE_OFFSET pl)"
  shows "v_block_mapped pl st (PAGE_OFFSET pl) = 0 \<and>
         (unat (PAGE_OFFSET pl) + unat (block_mapped_ram st) < 2 ^ 32 \<longrightarrow>
            in_virt_ram pl st (PAGE_OFFSET pl) \<and> pa_of pl (PAGE_OFFSET pl) = 0) \<and>
         (\<forall>va. \<not> in_virt_immr pl va \<and> \<not> in_virt_ram pl st va \<longrightarrow>
            v_block_mapped pl st va = 0) \<and>
         (\<forall>pa. \<not> in_phys_immr pl pa \<and> \<not> in_phys_ram st pa \<longrightarrow>
            p_block_mapped pl st pa = 0)"
proof -
  have "in_virt_ram pl st (PAGE_OFFSET pl)"
    if "unat (PAGE_OFFSET pl) + unat (block_mapped_ram st) < 2 ^ 32"
  proof -
    from that have "unat (PAGE_OFFSET pl + block_mapped_ram st) =
        unat (PAGE_OFFSET pl) + unat (block_mapped_ram st)"
      by (rule unat_add_nowrap)
    moreover have "0 < unat (block_mapped_ram st)"
      using assms(1) by (simp add: word_less_nat_alt)
    ultimately show ?thesis
      by (simp add: in_virt_ram_def word_less_nat_alt)
  qed
  with assms(2) show ?thesis
    by (simp add: v_block_mapped_windows p_block_mapped_windows pa_of_def)
qed

theorem unmapped_sentinel_collides_witness:
  "0 < block_mapped_ram mapped_state \<and> \<not> in_virt_immr mpc8xx (PAGE_OFFSET mpc8xx) \<and>
   v_block_mapped mpc8xx mapped_state (PAGE_OFFSET mpc8xx) = 0 \<and>
   unat (PAGE_OFFSET mpc8xx) + unat (block_mapped_ram mapped_state) < 2 ^ 32 \<and>
   in_virt_ram mpc8xx mapped_state (PAGE_OFFSET mpc8xx) \<and>
   \<not> in_virt_immr mpc8xx 0x10000000 \<and> \<not> in_virt_ram mpc8xx mapped_state 0x10000000 \<and>
   v_block_mapped mpc8xx mapped_state 0x10000000 = 0 \<and>
   \<not> in_phys_immr mpc8xx 0x10000000 \<and> \<not> in_phys_ram mapped_state 0x10000000 \<and>
   p_block_mapped mpc8xx mapped_state 0x10000000 = 0"
proof -
  have top: "0 < block_mapped_ram mapped_state"
    by (simp add: mapped_top)
  have out: "\<not> in_virt_immr mpc8xx (PAGE_OFFSET mpc8xx)"
    by (simp add: in_virt_immr_def IMMR_SIZE_def mpc8xx_def)
  have room: "unat (PAGE_OFFSET mpc8xx) + unat (block_mapped_ram mapped_state) < 2 ^ 32"
    by (simp add: mapped_top mpc8xx_def)
  have v: "\<not> in_virt_immr mpc8xx 0x10000000" "\<not> in_virt_ram mpc8xx mapped_state 0x10000000"
    by (simp_all add: in_virt_immr_def in_virt_ram_def IMMR_SIZE_def mapped_top mpc8xx_def)
  have p: "\<not> in_phys_immr mpc8xx 0x10000000" "\<not> in_phys_ram mapped_state 0x10000000"
    by (simp_all add: in_phys_immr_def in_phys_ram_def IMMR_SIZE_def mapped_top mpc8xx_def)
  from unmapped_sentinel_collides [OF top out] top out room v p show ?thesis
    by blast
qed

end
